theory Spec2Isabelle
  imports Main
begin

section \<open>Camera app backend: the photo index and its files\<close>

text \<open>
  The backend (\<^verbatim>\<open>src/backend/index.js\<close>) keeps an in-memory array \<^verbatim>\<open>photos\<close> and
  stores each uploaded blob as a file. The model below follows the route handlers
  one by one. What the handlers get from their platform (the clock, the random number
  generator, the disk) is an explicit input of the model; the file system is an explicit
  part of the state.

  JavaScript strings are modelled as \<open>string\<close> restricted to one-byte characters, numbers
  that hold integers as \<open>int\<close> or \<open>nat\<close>, paths in POSIX form.
\<close>

subsection \<open>Paths and the file system\<close>

type_synonym blob = "char list"

text \<open>An absolute, normalised path is the list of its segments; the root is \<open>[]\<close>.\<close>

type_synonym abspath = "string list"

datatype node = File blob | Dir

type_synonym filesystem = "abspath \<rightharpoonup> node"

datatype io_error = ENOENT | EISDIR | ENOTDIR | ENOSPC | EACCES

text \<open>\<^verbatim>\<open>s.split(c)\<close>: the pieces of \<open>s\<close> between occurrences of \<open>c\<close>; never empty.\<close>

fun split_on :: "char \<Rightarrow> string \<Rightarrow> string list" where
  "split_on c [] = [[]]"
| "split_on c (x # xs) =
     (if x = c then [] # split_on c xs
      else (case split_on c xs of
              [] \<Rightarrow> [[x]]
            | s # ss \<Rightarrow> (x # s) # ss))"

text \<open>
  Lexical normalisation as done by \<^verbatim>\<open>path.join\<close> and \<^verbatim>\<open>path.resolve\<close>: empty
  segments and \<^verbatim>\<open>.\<close> disappear, \<^verbatim>\<open>..\<close> removes the segment before it (and nothing at
  the root).
\<close>

fun normalize :: "abspath \<Rightarrow> string list \<Rightarrow> abspath" where
  "normalize acc [] = acc"
| "normalize acc (s # ss) =
     (if s = [] \<or> s = ''.'' then normalize acc ss
      else if s = ''..'' then normalize (butlast acc) ss
      else normalize (acc @ [s]) ss)"

text \<open>
  A path handed to \<^verbatim>\<open>fs\<close> is the normalised segment list together with a flag that
  the string ended in a separator; with the flag set the path can only name a directory.
\<close>

type_synonym fspath = "abspath \<times> bool"

definition trailing_sep :: "string \<Rightarrow> bool" where
  "trailing_sep s \<longleftrightarrow> s \<noteq> [] \<and> last s = CHR ''/''"

text \<open>\<^verbatim>\<open>path.join(base, s)\<close> for an absolute, normalised \<open>base\<close>.\<close>

definition path_join :: "abspath \<Rightarrow> string \<Rightarrow> fspath" where
  "path_join base s = (normalize base (split_on CHR ''/'' s), trailing_sep s)"

text \<open>
  How \<^verbatim>\<open>fs\<close> reads a path string: a relative one is taken from the working directory
  of the process.
\<close>

definition resolve :: "abspath \<Rightarrow> string \<Rightarrow> fspath" where
  "resolve wd s =
     (normalize (if s \<noteq> [] \<and> hd s = CHR ''/'' then [] else wd) (split_on CHR ''/'' s),
      trailing_sep s)"

definition existsSync :: "filesystem \<Rightarrow> fspath \<Rightarrow> bool" where
  "existsSync fsys p =
     (case fsys (fst p) of
        None \<Rightarrow> False
      | Some Dir \<Rightarrow> True
      | Some (File b) \<Rightarrow> \<not> snd p)"

text \<open>
  \<^verbatim>\<open>fs.mkdirSync(p, { recursive: true })\<close>: every missing prefix of \<open>p\<close> becomes a
  directory; a file in the way is an error.
\<close>

fun mkdir_p :: "filesystem \<Rightarrow> abspath \<Rightarrow> abspath \<Rightarrow> io_error + filesystem" where
  "mkdir_p fsys pre [] = Inr fsys"
| "mkdir_p fsys pre (s # ss) =
     (case fsys (pre @ [s]) of
        Some (File b) \<Rightarrow> Inl ENOTDIR
      | Some Dir \<Rightarrow> mkdir_p fsys (pre @ [s]) ss
      | None \<Rightarrow> mkdir_p (fsys(pre @ [s] \<mapsto> Dir)) (pre @ [s]) ss)"

text \<open>
  What the disk does with one stream written to a new file: it takes all of it, or the
  file cannot be opened, or the write fails after the first \<open>k\<close> bytes are in the file.
\<close>

datatype disk_outcome = WriteOk | OpenErr io_error | WriteErr nat io_error

text \<open>
  \<^verbatim>\<open>fs.createWriteStream(p)\<close> with the stream \<open>bytes\<close> piped into it. The file is
  created (or truncated) when it is opened, which needs the parent directory; nothing
  removes what was written when a later write fails.
\<close>

definition write_stream ::
  "filesystem \<Rightarrow> fspath \<Rightarrow> blob \<Rightarrow> disk_outcome \<Rightarrow> (io_error + unit) \<times> filesystem" where
  "write_stream fsys p bytes d =
     (if snd p then (Inl EISDIR, fsys)
      else if fsys (butlast (fst p)) \<noteq> Some Dir \<or> fst p = [] then (Inl ENOENT, fsys)
      else if fsys (fst p) = Some Dir then (Inl EISDIR, fsys)
      else (case d of
              OpenErr e \<Rightarrow> (Inl e, fsys)
            | WriteErr k e \<Rightarrow>
                if k < length bytes then (Inl e, fsys(fst p \<mapsto> File (take k bytes)))
                else (Inr (), fsys(fst p \<mapsto> File bytes))
            | WriteOk \<Rightarrow> (Inr (), fsys(fst p \<mapsto> File bytes))))"

text \<open>
  \<^verbatim>\<open>fs.unlinkSync(p)\<close>; \<open>failure\<close> is the error the operating system raises for
  this call, if any.
\<close>

definition unlinkSync ::
  "io_error option \<Rightarrow> filesystem \<Rightarrow> fspath \<Rightarrow> io_error + filesystem" where
  "unlinkSync failure fsys p =
     (case fsys (fst p) of
        None \<Rightarrow> Inl ENOENT
      | Some Dir \<Rightarrow> Inl EISDIR
      | Some (File b) \<Rightarrow>
          if snd p then Inl ENOTDIR
          else (case failure of
                  Some e \<Rightarrow> Inl e
                | None \<Rightarrow> Inr (fsys(fst p := None))))"

definition io_message :: "io_error \<Rightarrow> string" where
  "io_message e =
     (case e of
        ENOENT \<Rightarrow> ''ENOENT''
      | EISDIR \<Rightarrow> ''EISDIR''
      | ENOTDIR \<Rightarrow> ''ENOTDIR''
      | ENOSPC \<Rightarrow> ''ENOSPC''
      | EACCES \<Rightarrow> ''EACCES'')"

subsection \<open>Numbers and strings\<close>

text \<open>\<^verbatim>\<open>String(n)\<close> for an integer: its decimal digits, with a minus sign when negative.\<close>

definition digit_char :: "nat \<Rightarrow> char" where
  "digit_char d = ''0123456789'' ! d"

fun show_nat :: "nat \<Rightarrow> string" where
  "show_nat n = (if n < 10 then [digit_char n] else show_nat (n div 10) @ [digit_char (n mod 10)])"

declare show_nat.simps [simp del]

definition show_int :: "int \<Rightarrow> string" where
  "show_int i = (if i < 0 then CHR ''-'' # show_nat (nat (- i)) else show_nat (nat i))"

definition startsWith :: "string \<Rightarrow> string \<Rightarrow> bool" where
  "startsWith s p \<longleftrightarrow> take (length p) s = p"

text \<open>
  The white space \<^verbatim>\<open>parseInt\<close> skips, among one-byte characters: tab, line feed,
  vertical tab, form feed, carriage return, space and no-break space.
\<close>

definition is_space :: "char \<Rightarrow> bool" where
  "is_space c \<longleftrightarrow>
     c \<in> set [CHR 0x09, CHR 0x0A, CHR 0x0B, CHR 0x0C, CHR 0x0D, CHR '' '', CHR 0xA0]"

definition digit_table :: "(char \<times> nat) list" where
  "digit_table =
     [(CHR ''0'', 0), (CHR ''1'', 1), (CHR ''2'', 2), (CHR ''3'', 3), (CHR ''4'', 4),
      (CHR ''5'', 5), (CHR ''6'', 6), (CHR ''7'', 7), (CHR ''8'', 8), (CHR ''9'', 9),
      (CHR ''a'', 10), (CHR ''b'', 11), (CHR ''c'', 12), (CHR ''d'', 13), (CHR ''e'', 14),
      (CHR ''f'', 15),
      (CHR ''A'', 10), (CHR ''B'', 11), (CHR ''C'', 12), (CHR ''D'', 13), (CHR ''E'', 14),
      (CHR ''F'', 15)]"

text \<open>The value of \<open>c\<close> as a digit of radix \<open>r\<close>, if it is one.\<close>

definition digit_of :: "nat \<Rightarrow> char \<Rightarrow> nat option" where
  "digit_of r c =
     (case map_of digit_table c of
        None \<Rightarrow> None
      | Some v \<Rightarrow> if v < r then Some v else None)"

text \<open>The values of the longest prefix of radix-\<open>r\<close> digits.\<close>

fun parse_digits :: "nat \<Rightarrow> string \<Rightarrow> nat list" where
  "parse_digits r [] = []"
| "parse_digits r (c # cs) =
     (case digit_of r c of
        None \<Rightarrow> []
      | Some v \<Rightarrow> v # parse_digits r cs)"

definition number_of :: "nat \<Rightarrow> nat list \<Rightarrow> nat" where
  "number_of r ds = foldl (\<lambda>a d. a * r + d) 0 ds"

text \<open>
  \<^verbatim>\<open>parseInt(s)\<close> with no radix: leading white space is skipped, a sign is taken, the
  prefix \<^verbatim>\<open>0x\<close> or \<^verbatim>\<open>0X\<close> selects radix 16, and the longest run of digits is the
  number. \<open>None\<close> is \<^verbatim>\<open>NaN\<close>. The result is exact here; JavaScript rounds it to a
  double, which changes nothing below \<open>2^53\<close>, and clock values stay below that.
\<close>

definition parseInt :: "string \<Rightarrow> int option" where
  "parseInt s =
     (let s1 = dropWhile is_space s;
          neg = (s1 \<noteq> [] \<and> hd s1 = CHR ''-'');
          s2 = (if s1 \<noteq> [] \<and> (hd s1 = CHR ''-'' \<or> hd s1 = CHR ''+'') then tl s1 else s1);
          hex = (startsWith s2 ''0x'' \<or> startsWith s2 ''0X'');
          radix = (if hex then 16 else 10);
          s3 = (if hex then drop 2 s2 else s2);
          ds = parse_digits radix s3
      in if ds = [] then None
         else Some ((if neg then - 1 else 1) * int (number_of radix ds)))"

text \<open>
  \<^verbatim>\<open>xs.findIndex(P)\<close>: the index of the first element that satisfies \<open>P\<close>;
  \<open>None\<close> is JavaScript's \<open>-1\<close>.
\<close>

fun findIndex :: "('a \<Rightarrow> bool) \<Rightarrow> 'a list \<Rightarrow> nat option" where
  "findIndex P [] = None"
| "findIndex P (x # xs) = (if P x then Some 0 else map_option Suc (findIndex P xs))"

text \<open>\<^verbatim>\<open>xs.splice(i, 1)\<close>: the array without its element at index \<open>i\<close>.\<close>

definition splice1 :: "nat \<Rightarrow> 'a list \<Rightarrow> 'a list" where
  "splice1 i xs = take i xs @ drop (Suc i) xs"

subsection \<open>Records, requests and responses\<close>

text \<open>
  One element of \<^verbatim>\<open>photos\<close>. \<open>photo_timestamp\<close> is the clock value that
  \<^verbatim>\<open>toISOString\<close> renders.
\<close>

record photo =
  photo_id :: int
  photo_filename :: string
  photo_originalName :: string
  photo_path :: string
  photo_size :: nat
  photo_mimetype :: string
  photo_timestamp :: int

text \<open>The two projections the routes send: list entries and the upload result.\<close>

record photo_view =
  view_id :: int
  view_filename :: string
  view_originalName :: string
  view_url :: string
  view_timestamp :: int

record upload_view =
  up_id :: int
  up_filename :: string
  up_url :: string
  up_timestamp :: int

datatype body =
    Message bool string
  | PhotoList nat "photo_view list"
  | Uploaded string upload_view
  | RouteNotFound

text \<open>
  A response is a status with a JSON body, or the bytes of the file at a path
  (\<^verbatim>\<open>res.sendFile\<close>).
\<close>

datatype response = Json nat body | SendFile abspath blob

datatype error = MulterError string string | Error string

text \<open>The file part of a multipart upload, as multer sees it.\<close>

record file_part =
  fieldname :: string
  originalname :: string
  mimetype :: string
  content :: blob

text \<open>What multer puts in \<^verbatim>\<open>req.file\<close>.\<close>

record multer_file =
  mf_filename :: string
  mf_originalname :: string
  mf_path :: string
  mf_size :: nat
  mf_mimetype :: string

text \<open>\<^verbatim>\<open>__dirname\<close> and \<^verbatim>\<open>process.cwd()\<close>.\<close>

record server_env =
  dirname :: abspath
  cwd :: abspath

text \<open>
  What one upload request reads from the platform: the clock in the \<^verbatim>\<open>filename\<close>
  callback, \<^verbatim>\<open>Math.round(Math.random() * 1E9)\<close>, the clock for \<^verbatim>\<open>id\<close> and for
  \<^verbatim>\<open>timestamp\<close>, what the disk does with the write, and whether multer's removal of
  a file it gave up on fails.
\<close>

record upload_env =
  now_filename :: int
  random :: nat
  now_id :: int
  now_timestamp :: int
  disk :: disk_outcome
  cleanup_failure :: "io_error option"

record state =
  photos :: "photo list"
  fs :: filesystem
  console :: "string list"

subsection \<open>Start-up\<close>

definition uploadsDir :: "server_env \<Rightarrow> abspath" where
  "uploadsDir env = dirname env @ [''uploads'']"

text \<open>
  Lines 19 to 23 and 51: the uploads directory is created when nothing exists at its
  path, and the index starts empty. \<open>None\<close>: \<^verbatim>\<open>mkdirSync\<close> threw and the process
  did not start.
\<close>

definition boot :: "server_env \<Rightarrow> filesystem \<Rightarrow> state option" where
  "boot env fsys =
     (if \<not> existsSync fsys (uploadsDir env, False) then
        (case mkdir_p fsys [] (uploadsDir env) of
           Inl e \<Rightarrow> None
         | Inr fsys' \<Rightarrow> Some \<lparr>photos = [], fs = fsys', console = []\<rparr>)
      else Some \<lparr>photos = [], fs = fsys, console = []\<rparr>)"

subsection \<open>Upload\<close>

text \<open>The \<^verbatim>\<open>filename\<close> callback of the disk storage (lines 30 to 33).\<close>

definition gen_filename :: "int \<Rightarrow> nat \<Rightarrow> string" where
  "gen_filename now rnd = ''photo-'' @ (show_int now @ ''-'' @ show_nat rnd) @ ''.jpg''"

definition fileSize_limit :: nat where
  "fileSize_limit = 10 * 1024 * 1024"

definition fileFilter :: "file_part \<Rightarrow> error + bool" where
  "fileFilter file =
     (if startsWith (mimetype file) ''image/'' then Inr True
      else Inl (Error ''Only image files are allowed!''))"

text \<open>
  \<^verbatim>\<open>upload.single('photo')\<close>. Multer refuses a file in another field, then asks
  \<^verbatim>\<open>fileFilter\<close>, then pipes the part into a new file at \<^verbatim>\<open>uploads/\<close> followed by the
  generated name, a path relative to the working directory. The part's stream ends at
  \<^verbatim>\<open>limits.fileSize\<close> bytes, the largest size that is accepted; when the part was
  longer, multer removes the file it wrote and fails with \<^verbatim>\<open>LIMIT_FILE_SIZE\<close>. When
  the write fails, its error is the result, and the file is not removed.
\<close>

definition multer_single ::
  "server_env \<Rightarrow> upload_env \<Rightarrow> file_part option \<Rightarrow> filesystem
     \<Rightarrow> (error + multer_file option) \<times> filesystem" where
  "multer_single env e part fsys =
     (case part of
        None \<Rightarrow> (Inr None, fsys)
      | Some file \<Rightarrow>
          if fieldname file \<noteq> ''photo'' then
            (Inl (MulterError ''LIMIT_UNEXPECTED_FILE'' ''Unexpected field''), fsys)
          else (case fileFilter file of
              Inl err \<Rightarrow> (Inl err, fsys)
            | Inr ok \<Rightarrow>
                let name = gen_filename (now_filename e) (random e);
                    finalPath = ''uploads/'' @ name;
                    bytes = take fileSize_limit (content file)
                in (case write_stream fsys (resolve (cwd env) finalPath) bytes (disk e) of
                      (Inl ioe, fsys') \<Rightarrow> (Inl (Error (io_message ioe)), fsys')
                    | (Inr u, fsys') \<Rightarrow>
                        if fileSize_limit < length (content file) then
                          (Inl (MulterError ''LIMIT_FILE_SIZE'' ''File too large''),
                           (case unlinkSync (cleanup_failure e) fsys'
                                   (resolve (cwd env) finalPath) of
                              Inl ioe \<Rightarrow> fsys'
                            | Inr fsys'' \<Rightarrow> fsys''))
                        else
                          (Inr (Some \<lparr>mf_filename = name,
                                      mf_originalname = originalname file,
                                      mf_path = finalPath,
                                      mf_size = length bytes,
                                      mf_mimetype = mimetype file\<rparr>),
                           fsys'))))"

text \<open>The error handling middleware (lines 181 to 194).\<close>

definition error_middleware :: "error \<Rightarrow> response" where
  "error_middleware err =
     (case err of
        MulterError code msg \<Rightarrow>
          if code = ''LIMIT_FILE_SIZE'' then
            Json 400 (Message False ''File too large. Maximum size is 10MB.'')
          else Json 500 (Message False msg)
      | Error msg \<Rightarrow> Json 500 (Message False msg))"

text \<open>
  The handler of \<^verbatim>\<open>POST /api/upload\<close> (lines 78 to 116), run after multer. Nothing in
  its \<^verbatim>\<open>try\<close> block throws, so the \<^verbatim>\<open>catch\<close> branch has no case here.
\<close>

definition photoData :: "upload_env \<Rightarrow> multer_file \<Rightarrow> photo" where
  "photoData e f =
     \<lparr>photo_id = now_id e,
      photo_filename = mf_filename f,
      photo_originalName = mf_originalname f,
      photo_path = mf_path f,
      photo_size = mf_size f,
      photo_mimetype = mf_mimetype f,
      photo_timestamp = now_timestamp e\<rparr>"

definition upload_view_of :: "photo \<Rightarrow> upload_view" where
  "upload_view_of p =
     \<lparr>up_id = photo_id p,
      up_filename = photo_filename p,
      up_url = ''/api/photos/'' @ photo_filename p,
      up_timestamp = photo_timestamp p\<rparr>"

definition upload_handler ::
  "upload_env \<Rightarrow> multer_file option \<Rightarrow> state \<Rightarrow> response \<times> state" where
  "upload_handler e file st =
     (case file of
        None \<Rightarrow> (Json 400 (Message False ''No file uploaded''), st)
      | Some f \<Rightarrow>
          (Json 200 (Uploaded ''Photo uploaded successfully'' (upload_view_of (photoData e f))),
           st\<lparr>photos := photos st @ [photoData e f]\<rparr>))"

definition post_upload ::
  "server_env \<Rightarrow> upload_env \<Rightarrow> file_part option \<Rightarrow> state \<Rightarrow> response \<times> state" where
  "post_upload env e part st =
     (case multer_single env e part (fs st) of
        (Inl err, fsys') \<Rightarrow> (error_middleware err, st\<lparr>fs := fsys'\<rparr>)
      | (Inr file, fsys') \<Rightarrow> upload_handler e file (st\<lparr>fs := fsys'\<rparr>))"

subsection \<open>List, fetch and delete\<close>

definition view_of :: "photo \<Rightarrow> photo_view" where
  "view_of p =
     \<lparr>view_id = photo_id p,
      view_filename = photo_filename p,
      view_originalName = photo_originalName p,
      view_url = ''/api/photos/'' @ photo_filename p,
      view_timestamp = photo_timestamp p\<rparr>"

text \<open>\<^verbatim>\<open>GET /api/photos\<close> (lines 63 to 75).\<close>

definition get_photos :: "state \<Rightarrow> response" where
  "get_photos st = Json 200 (PhotoList (length (photos st)) (map view_of (photos st)))"

text \<open>
  \<^verbatim>\<open>res.sendFile(p)\<close> for a path that exists. Express refuses a path in which
  \<^verbatim>\<open>..\<close> stands between separators, where a separator is a slash, a backslash or an
  end of the path; in a normalised path that can only happen inside a segment, next to a
  backslash. It also does not serve a path with a segment that begins with a dot (its
  default for dot files). Both errors go to the error handling middleware. Otherwise it
  sends the bytes of a regular file; for a directory it passes the request on, and the
  request ends in the last middleware (lines 197 to 204).
\<close>

definition is_sep :: "char \<Rightarrow> bool" where
  "is_sep c \<longleftrightarrow> c = CHR ''/'' \<or> c = CHR 0x5C"

text \<open>
  Whether \<^verbatim>\<open>..\<close> stands between separators somewhere in the string; \<open>b\<close> says that
  the string begins after a separator.
\<close>

fun up_path_from :: "bool \<Rightarrow> string \<Rightarrow> bool" where
  "up_path_from b [] = False"
| "up_path_from b (c # cs) =
     ((b \<and> c = CHR ''.'' \<and> startsWith cs ''.'' \<and>
        (drop 1 cs = [] \<or> is_sep (hd (drop 1 cs)))) \<or>
      up_path_from (is_sep c) cs)"

definition malicious :: "abspath \<Rightarrow> bool" where
  "malicious p \<longleftrightarrow> list_ex (up_path_from True) p"

definition dot_segment :: "string \<Rightarrow> bool" where
  "dot_segment s \<longleftrightarrow> 1 < length s \<and> hd s = CHR ''.''"

definition containsDotFile :: "abspath \<Rightarrow> bool" where
  "containsDotFile p \<longleftrightarrow> list_ex dot_segment p"

definition sendFile :: "filesystem \<Rightarrow> fspath \<Rightarrow> response" where
  "sendFile fsys p =
     (if malicious (fst p) then error_middleware (Error ''Forbidden'')
      else if containsDotFile (fst p) then error_middleware (Error ''Not Found'')
      else (case fsys (fst p) of
              Some (File b) \<Rightarrow> SendFile (fst p) b
            | _ \<Rightarrow> Json 404 RouteNotFound))"

text \<open>
  \<^verbatim>\<open>GET /api/photos/:filename\<close> (lines 119 to 131); \<open>filename\<close> is
  \<^verbatim>\<open>req.params.filename\<close>, the path segment after percent-decoding.
\<close>

definition get_photo :: "server_env \<Rightarrow> string \<Rightarrow> state \<Rightarrow> response" where
  "get_photo env filename st =
     (let photoPath = path_join (uploadsDir env) filename
      in if existsSync (fs st) photoPath then sendFile (fs st) photoPath
         else Json 404 (Message False ''Photo not found''))"

text \<open>
  \<^verbatim>\<open>DELETE /api/photos/:id\<close> (lines 134 to 163); \<open>unlink_failure\<close> is the error the
  operating system raises for the \<^verbatim>\<open>unlinkSync\<close>, if any. An exception of the
  \<^verbatim>\<open>try\<close> block is logged and nothing else.
\<close>

definition delete_photo ::
  "server_env \<Rightarrow> io_error option \<Rightarrow> string \<Rightarrow> state \<Rightarrow> response \<times> state" where
  "delete_photo env unlink_failure idparam st =
     (let id = parseInt idparam;
          photoIndex = findIndex (\<lambda>p. Some (photo_id p) = id) (photos st)
      in (case photoIndex of
            None \<Rightarrow> (Json 404 (Message False ''Photo not found''), st)
          | Some i \<Rightarrow>
              let p = photos st ! i;
                  st1 = (if existsSync (fs st) (resolve (cwd env) (photo_path p)) then
                           (case unlinkSync unlink_failure (fs st)
                                   (resolve (cwd env) (photo_path p)) of
                              Inl ioe \<Rightarrow>
                                st\<lparr>console := console st
                                      @ [''Error deleting file: '' @ io_message ioe]\<rparr>
                            | Inr fsys' \<Rightarrow> st\<lparr>fs := fsys'\<rparr>)
                         else st)
              in (Json 200 (Message True ''Photo deleted successfully''),
                  st1\<lparr>photos := splice1 i (photos st1)\<rparr>)))"

subsection \<open>Reading responses, and runs of uploads\<close>

definition status_of :: "response \<Rightarrow> nat" where
  "status_of r = (case r of Json code b \<Rightarrow> code | SendFile p b \<Rightarrow> 200)"

definition is_ok :: "response \<Rightarrow> bool" where
  "is_ok r \<longleftrightarrow> status_of r = 200"

definition is_client_error :: "response \<Rightarrow> bool" where
  "is_client_error r \<longleftrightarrow> 400 \<le> status_of r \<and> status_of r < 500"

text \<open>The \<^verbatim>\<open>photo\<close> object of an upload response, if the response is one.\<close>

definition uploaded_view :: "response \<Rightarrow> upload_view option" where
  "uploaded_view r =
     (case r of
        Json code (Uploaded msg v) \<Rightarrow> Some v
      | _ \<Rightarrow> None)"

text \<open>The \<^verbatim>\<open>photos\<close> array of a list response, with its \<^verbatim>\<open>count\<close>.\<close>

definition listed :: "response \<Rightarrow> (nat \<times> photo_view list) option" where
  "listed r =
     (case r of
        Json code (PhotoList n vs) \<Rightarrow> Some (n, vs)
      | _ \<Rightarrow> None)"

text \<open>
  The record an upload appends when multer has stored the part: \<open>photoData\<close> of the
  file information that \<open>multer_single\<close> returns.
\<close>

definition uploaded_photo :: "upload_env \<Rightarrow> file_part \<Rightarrow> photo" where
  "uploaded_photo e file =
     photoData e
       \<lparr>mf_filename = gen_filename (now_filename e) (random e),
        mf_originalname = originalname file,
        mf_path = ''uploads/'' @ gen_filename (now_filename e) (random e),
        mf_size = length (take fileSize_limit (content file)),
        mf_mimetype = mimetype file\<rparr>"

text \<open>The place of the file an upload writes.\<close>

definition upload_target :: "server_env \<Rightarrow> upload_env \<Rightarrow> abspath" where
  "upload_target env e = cwd env @ [''uploads'', gen_filename (now_filename e) (random e)]"

text \<open>
  Whether an upload gets as far as having its file open for writing: it has a part in
  the field \<^verbatim>\<open>photo\<close> that passes \<open>fileFilter\<close>, the directory is there, no directory
  is in the way, and the disk does not refuse to open the file.
\<close>

definition opens_file ::
  "server_env \<Rightarrow> upload_env \<Rightarrow> file_part option \<Rightarrow> filesystem \<Rightarrow> bool" where
  "opens_file env e part fsys =
     (case part of
        None \<Rightarrow> False
      | Some file \<Rightarrow>
          fieldname file = ''photo'' \<and> startsWith (mimetype file) ''image/'' \<and>
          fsys (cwd env @ [''uploads'']) = Some Dir \<and>
          fsys (upload_target env e) \<noteq> Some Dir \<and>
          (case disk e of
             OpenErr err \<Rightarrow> False
           | _ \<Rightarrow> True))"

text \<open>The records of a list of uploads that carry a file part, in order.\<close>

fun new_photos :: "(upload_env \<times> file_part option) list \<Rightarrow> photo list" where
  "new_photos [] = []"
| "new_photos (u # us) =
     (case snd u of
        None \<Rightarrow> new_photos us
      | Some file \<Rightarrow> uploaded_photo (fst u) file # new_photos us)"

text \<open>The ids a list response shows, in its order.\<close>

definition listed_ids :: "response \<Rightarrow> int list" where
  "listed_ids r =
     (case listed r of
        None \<Rightarrow> []
      | Some (n, vs) \<Rightarrow> map view_id vs)"

text \<open>Upload requests handled one after the other, each with its own platform inputs.\<close>

fun run_uploads ::
  "server_env \<Rightarrow> (upload_env \<times> file_part option) list \<Rightarrow> state
     \<Rightarrow> response list \<times> state" where
  "run_uploads env [] st = ([], st)"
| "run_uploads env (u # us) st =
     (case post_upload env (fst u) (snd u) st of
        (r, st') \<Rightarrow>
          (case run_uploads env us st' of
             (rs, st'') \<Rightarrow> (r # rs, st'')))"

text \<open>The projection of a list entry onto the fields an upload response has.\<close>

definition view_core :: "photo_view \<Rightarrow> upload_view" where
  "view_core v =
     \<lparr>up_id = view_id v,
      up_filename = view_filename v,
      up_url = view_url v,
      up_timestamp = view_timestamp v\<rparr>"

subsection \<open>A small installation, for concrete runs\<close>

text \<open>
  The server's file lives in \<^verbatim>\<open>/srv/backend\<close>. In \<open>demo_env\<close> the process was
  started there, in \<open>other_cwd_env\<close> in \<^verbatim>\<open>/srv\<close>.
\<close>

definition demo_env :: server_env where
  "demo_env = \<lparr>dirname = [''srv'', ''backend''], cwd = [''srv'', ''backend'']\<rparr>"

definition other_cwd_env :: server_env where
  "other_cwd_env = \<lparr>dirname = [''srv'', ''backend''], cwd = [''srv'']\<rparr>"

definition demo_fs :: filesystem where
  "demo_fs =
     map_of
       [([''srv''], Dir),
        ([''srv'', ''backend''], Dir),
        ([''srv'', ''backend'', ''index.js''], File ''import express''),
        ([''srv'', ''backend'', ''uploads''], Dir),
        ([''srv'', ''backend'', ''uploads'', ''notes.txt''], File ''left here''),
        ([''srv'', ''uploads''], Dir)]"

definition demo_state :: state where
  "demo_state = \<lparr>photos = [], fs = demo_fs, console = []\<rparr>"

definition demo_upload_env :: upload_env where
  "demo_upload_env =
     \<lparr>now_filename = 1700000000000, random = 42, now_id = 1700000000001,
      now_timestamp = 1700000000001, disk = WriteOk, cleanup_failure = None\<rparr>"

definition demo_part :: file_part where
  "demo_part =
     \<lparr>fieldname = ''photo'', originalname = ''photo.jpg'', mimetype = ''image/jpeg'',
      content = ''JFIF''\<rparr>"

text \<open>A record as an upload at clock value \<open>t\<close> leaves it, and a state holding such records.\<close>

definition demo_photo :: "int \<Rightarrow> nat \<Rightarrow> photo" where
  "demo_photo t rnd =
     \<lparr>photo_id = t,
      photo_filename = gen_filename t rnd,
      photo_originalName = ''photo.jpg'',
      photo_path = ''uploads/'' @ gen_filename t rnd,
      photo_size = 4,
      photo_mimetype = ''image/jpeg'',
      photo_timestamp = t\<rparr>"

text \<open>Parts longer than the limit by one byte, one of them not an image.\<close>

definition big_image_part :: file_part where
  "big_image_part = demo_part\<lparr>content := replicate (Suc fileSize_limit) (CHR ''a'')\<rparr>"

definition big_text_part :: file_part where
  "big_text_part = big_image_part\<lparr>mimetype := ''text/plain''\<rparr>"

text \<open>An upload during which the disk fills up after two bytes.\<close>

definition full_disk_env :: upload_env where
  "full_disk_env = demo_upload_env\<lparr>disk := WriteErr 2 ENOSPC\<rparr>"

text \<open>
  Three uploads one after the other, the first two in the same millisecond, and two
  uploads that read the same clock value and draw the same random number.
\<close>

definition upload_at :: "int \<Rightarrow> nat \<Rightarrow> upload_env" where
  "upload_at t rnd =
     \<lparr>now_filename = t, random = rnd, now_id = t, now_timestamp = t, disk = WriteOk,
      cleanup_failure = None\<rparr>"

definition three_uploads :: "(upload_env \<times> file_part option) list" where
  "three_uploads =
     [(upload_at 100 3, Some demo_part),
      (upload_at 100 4, Some demo_part),
      (upload_at 102 5, Some demo_part)]"

definition same_draw_uploads :: "(upload_env \<times> file_part option) list" where
  "same_draw_uploads =
     [(upload_at 100 3, Some demo_part),
      (upload_at 100 3, Some demo_part)]"

text \<open>The state after one upload at clock value 5.\<close>

definition one_photo_state :: state where
  "one_photo_state =
     \<lparr>photos = [demo_photo 5 7],
      fs = demo_fs([''srv'', ''backend'', ''uploads'', ''photo-5-7.jpg''] \<mapsto> File ''JFIF''),
      console = []\<rparr>"

text \<open>Two records with the same \<open>id\<close>, as two uploads in the same millisecond leave them.\<close>

definition twin_state :: state where
  "twin_state =
     \<lparr>photos = [demo_photo 7 3, demo_photo 7 4],
      fs = demo_fs
        ([''srv'', ''backend'', ''uploads'', ''photo-7-3.jpg''] \<mapsto> File ''JFIF'',
         [''srv'', ''backend'', ''uploads'', ''photo-7-4.jpg''] \<mapsto> File ''JFIF''),
      console = []\<rparr>"

text \<open>Two uploads one after the other, between which the clock is set back.\<close>

definition back_uploads :: "(upload_env \<times> file_part option) list" where
  "back_uploads =
     [(upload_at 102 3, Some demo_part),
      (upload_at 100 4, Some demo_part)]"

text \<open>
  An oversize image in another field, an upload after which multer cannot remove its
  file, and an upload whose file the disk refuses to open.
\<close>

definition big_other_field_part :: file_part where
  "big_other_field_part = big_image_part\<lparr>fieldname := ''file''\<rparr>"

definition stuck_cleanup_env :: upload_env where
  "stuck_cleanup_env = demo_upload_env\<lparr>cleanup_failure := Some EACCES\<rparr>"

definition closed_disk_env :: upload_env where
  "closed_disk_env = demo_upload_env\<lparr>disk := OpenErr EACCES\<rparr>"

text \<open>The state after the upload of \<open>demo_part\<close> in \<open>demo_env\<close>.\<close>

definition uploaded_state :: state where
  "uploaded_state = snd (post_upload demo_env demo_upload_env (Some demo_part) demo_state)"

subsection \<open>The id of a delete request, in the words of the specification\<close>

text \<open>
  The leading run of decimal digits of the string, as a number; \<open>None\<close> when the
  string does not begin with a digit. The same for hexadecimal digits.
\<close>

definition decimal_prefix :: "string \<Rightarrow> int option" where
  "decimal_prefix s =
     (let ds = parse_digits 10 s
      in if ds = [] then None else Some (int (number_of 10 ds)))"

definition hex_prefix :: "string \<Rightarrow> int option" where
  "hex_prefix s =
     (let ds = parse_digits 16 s
      in if ds = [] then None else Some (int (number_of 16 ds)))"

text \<open>
  The string after its leading white space and one sign, whether that sign is a minus,
  and a number with the sign of the string.
\<close>

definition unsigned_part :: "string \<Rightarrow> string" where
  "unsigned_part s =
     (case dropWhile is_space s of
        [] \<Rightarrow> []
      | c # cs \<Rightarrow> if c = CHR ''-'' \<or> c = CHR ''+'' then cs else c # cs)"

definition negative :: "string \<Rightarrow> bool" where
  "negative s =
     (case dropWhile is_space s of
        [] \<Rightarrow> False
      | c # cs \<Rightarrow> c = CHR ''-'')"

definition with_sign :: "string \<Rightarrow> int option \<Rightarrow> int option" where
  "with_sign s v = map_option (\<lambda>n. if negative s then - n else n) v"

definition hex_marked :: "string \<Rightarrow> bool" where
  "hex_marked s \<longleftrightarrow>
     startsWith (unsigned_part s) ''0x'' \<or> startsWith (unsigned_part s) ''0X''"

text \<open>
  The number the string stands for: after white space and a sign, the hexadecimal number
  that follows \<^verbatim>\<open>0x\<close> or \<^verbatim>\<open>0X\<close>, and otherwise the leading decimal number.
\<close>

definition id_reading :: "string \<Rightarrow> int option" where
  "id_reading s =
     with_sign s
       (if hex_marked s then hex_prefix (drop 2 (unsigned_part s))
        else decimal_prefix (unsigned_part s))"

subsection \<open>What the disk takes\<close>

text \<open>Whether the disk takes the first \<open>n\<close> bytes of a stream into an opened file.\<close>

definition disk_takes :: "disk_outcome \<Rightarrow> nat \<Rightarrow> bool" where
  "disk_takes d n =
     (case d of
        WriteOk \<Rightarrow> True
      | OpenErr err \<Rightarrow> False
      | WriteErr k err \<Rightarrow> n \<le> k)"

section \<open>Properties\<close>

subsection \<open>Arrays\<close>

lemma findIndex_Some:
  "findIndex P xs = Some i \<Longrightarrow> i < length xs \<and> P (xs ! i) \<and> (\<forall>j<i. \<not> P (xs ! j))"
proof (induction xs arbitrary: i)
  case Nil
  then show ?case by simp
next
  case (Cons x xs)
  show ?case
  proof (cases "P x")
    case True
    with Cons.prems show ?thesis by simp
  next
    case False
    with Cons.prems obtain k where k: "findIndex P xs = Some k" "i = Suc k"
      by auto
    from Cons.IH [OF k(1)] False k(2) show ?thesis
      by (auto simp: less_Suc_eq_0_disj)
  qed
qed

lemma findIndex_None: "findIndex P xs = None \<longleftrightarrow> (\<forall>x\<in>set xs. \<not> P x)"
  by (induction xs) auto

subsection \<open>Paths\<close>

lemma split_on_single: "c \<notin> set s \<Longrightarrow> split_on c s = [s]"
  by (induction s) auto

lemma trailing_sep_single:
  assumes "CHR ''/'' \<notin> set s"
  shows "\<not> trailing_sep s"
proof
  assume t: "trailing_sep s"
  from t have ne: "s \<noteq> []"
    by (simp add: trailing_sep_def)
  have mem: "last s \<in> set s"
    using ne by (rule last_in_set)
  from t have "last s = CHR ''/''"
    by (simp add: trailing_sep_def)
  with mem assms show False
    by simp
qed

lemma path_join_single:
  assumes "CHR ''/'' \<notin> set s" and "s \<noteq> []" and "s \<noteq> ''.''" and "s \<noteq> ''..''"
  shows "path_join base s = (base @ [s], False)"
  using assms by (simp add: path_join_def split_on_single trailing_sep_single)

lemma resolve_uploads:
  assumes "CHR ''/'' \<notin> set s" and "s \<noteq> []" and "s \<noteq> ''.''" and "s \<noteq> ''..''"
  shows "resolve wd (''uploads/'' @ s) = (wd @ [''uploads'', s], False)"
proof -
  have "last s \<in> set s"
    using assms(2) by simp
  with assms(1) have "last s \<noteq> CHR ''/''"
    by auto
  with assms show ?thesis
    by (simp add: resolve_def split_on_single trailing_sep_def)
qed

subsection \<open>Decimal digits\<close>

lemma show_nat_nonempty: "show_nat n \<noteq> []"
  by (cases "n < 10") (simp_all add: show_nat.simps [of n])

lemma less_ten_cases:
  "(d::nat) < 10 \<Longrightarrow> d \<in> {0, 1, 2, 3, 4, 5, 6, 7, 8, 9}"
  by auto

lemma digit_of_digit_char: "d < 10 \<Longrightarrow> digit_of 10 (digit_char d) = Some d"
  by (drule less_ten_cases) (auto simp: digit_of_def digit_char_def digit_table_def)

lemma show_nat_digits: "c \<in> set (show_nat n) \<Longrightarrow> digit_of 10 c \<noteq> None"
proof (induction n arbitrary: c rule: show_nat.induct)
  case (1 n)
  show ?case
  proof (cases "n < 10")
    case True
    with "1.prems" have "c = digit_char n"
      by (simp add: show_nat.simps [of n])
    with True show ?thesis
      by (simp add: digit_of_digit_char)
  next
    case False
    with "1.prems" have "c \<in> set (show_nat (n div 10)) \<or> c = digit_char (n mod 10)"
      by (auto simp: show_nat.simps [of n])
    then show ?thesis
    proof
      assume "c \<in> set (show_nat (n div 10))"
      with False show ?thesis by (simp add: "1.IH")
    next
      assume "c = digit_char (n mod 10)"
      then show ?thesis
        by (simp add: digit_of_digit_char)
    qed
  qed
qed

lemma show_nat_no_sep: "CHR ''/'' \<notin> set (show_nat n)" "CHR ''-'' \<notin> set (show_nat n)"
  using show_nat_digits [of "CHR ''/''" n] show_nat_digits [of "CHR ''-''" n]
  by (auto simp: digit_of_def digit_table_def)

lemma parse_digits_append:
  "\<forall>c\<in>set xs. digit_of r c \<noteq> None \<Longrightarrow>
   parse_digits r (xs @ rest) = map (\<lambda>c. the (digit_of r c)) xs @ parse_digits r rest"
  by (induction xs) auto

lemma number_of_snoc: "number_of r (ds @ [d]) = number_of r ds * r + d"
  by (simp add: number_of_def)

lemma number_of_show_nat: "number_of 10 (map (\<lambda>c. the (digit_of 10 c)) (show_nat n)) = n"
proof (induction n rule: show_nat.induct)
  case (1 n)
  show ?case
  proof (cases "n < 10")
    case True
    then show ?thesis
      by (simp add: show_nat.simps [of n] digit_of_digit_char number_of_def)
  next
    case False
    have "n mod 10 < 10" by simp
    then have d: "digit_of 10 (digit_char (n mod 10)) = Some (n mod 10)"
      by (rule digit_of_digit_char)
    from False have "number_of 10 (map (\<lambda>c. the (digit_of 10 c)) (show_nat n)) =
        number_of 10 (map (\<lambda>c. the (digit_of 10 c)) (show_nat (n div 10))) * 10 + n mod 10"
      by (simp add: show_nat.simps [of n] number_of_snoc d)
    also have "\<dots> = (n div 10) * 10 + n mod 10"
      using "1.IH" [OF False] by simp
    finally show ?thesis by simp
  qed
qed

lemma show_nat_inj:
  assumes "show_nat a = show_nat b"
  shows "a = b"
proof -
  have "a = number_of 10 (map (\<lambda>c. the (digit_of 10 c)) (show_nat a))"
    by (simp only: number_of_show_nat)
  also have "\<dots> = number_of 10 (map (\<lambda>c. the (digit_of 10 c)) (show_nat b))"
    by (simp only: assms)
  also have "\<dots> = b"
    by (rule number_of_show_nat)
  finally show ?thesis .
qed

lemma show_int_inj: "show_int a = show_int b \<Longrightarrow> a = b"
proof -
  assume eq: "show_int a = show_int b"
  have neg: "CHR ''-'' # show_nat m \<noteq> show_nat k" for m k
  proof
    assume "CHR ''-'' # show_nat m = show_nat k"
    then have "set (CHR ''-'' # show_nat m) = set (show_nat k)"
      by (rule arg_cong)
    with show_nat_no_sep(2) [of k] show False
      by auto
  qed
  show "a = b"
  proof (cases "a < 0")
    case True
    show ?thesis
    proof (cases "b < 0")
      case b: True
      with True eq have "nat (- a) = nat (- b)"
        by (simp add: show_int_def show_nat_inj)
      with True b show ?thesis by simp
    next
      case False
      with True eq neg show ?thesis by (simp add: show_int_def)
    qed
  next
    case False
    show ?thesis
    proof (cases "b < 0")
      case True
      with False eq neg [of "nat (- b)" "nat a"] show ?thesis
        by (simp add: show_int_def)
    next
      case b: False
      with False eq have "nat a = nat b"
        by (simp add: show_int_def show_nat_inj)
      with False b show ?thesis by simp
    qed
  qed
qed

subsection \<open>Generated file names\<close>

lemma split_at_last:
  assumes "xs @ c # ys = xs' @ c # ys'" and "c \<notin> set ys" and "c \<notin> set ys'"
  shows "xs = xs' \<and> ys = ys'"
  using assms
proof (induction xs arbitrary: xs')
  case Nil
  then show ?case by (cases xs') auto
next
  case (Cons a as)
  show ?case
  proof (cases xs')
    case Nil
    with Cons.prems show ?thesis by auto
  next
    case (Cons b bs)
    with Cons.prems Cons.IH [of bs] show ?thesis by auto
  qed
qed

lemma gen_filename_inj:
  assumes "gen_filename a r = gen_filename a' r'"
  shows "a = a' \<and> r = r'"
proof -
  have no: "CHR ''-'' \<notin> set (show_nat k @ ''.jpg'')" for k
    using show_nat_no_sep(2) [of k] by simp
  from assms have "show_int a @ CHR ''-'' # (show_nat r @ ''.jpg'') =
      show_int a' @ CHR ''-'' # (show_nat r' @ ''.jpg'')"
    by (simp add: gen_filename_def)
  from split_at_last [OF this no no]
  show ?thesis
    by (simp add: show_int_inj show_nat_inj)
qed

lemma gen_filename_no_sep: "CHR ''/'' \<notin> set (gen_filename now rnd)"
  using show_nat_no_sep(1) [of rnd] show_nat_no_sep(1) [of "nat now"]
    show_nat_no_sep(1) [of "nat (- now)"]
  by (simp add: gen_filename_def show_int_def)

lemma gen_filename_not_dots:
  "gen_filename now rnd \<noteq> []" "gen_filename now rnd \<noteq> ''.''" "gen_filename now rnd \<noteq> ''..''"
  by (simp_all add: gen_filename_def)

lemma up_path_dots: "up_path_from b s \<Longrightarrow> 2 \<le> length (filter (\<lambda>c. c = CHR ''.'') s)"
proof (induction s arbitrary: b)
  case Nil
  then show ?case by simp
next
  case (Cons c cs)
  from Cons.prems
  have "(c = CHR ''.'' \<and> startsWith cs ''.'') \<or> up_path_from (is_sep c) cs"
    by auto
  then show ?case
  proof
    assume "c = CHR ''.'' \<and> startsWith cs ''.''"
    then show ?thesis
      by (cases cs) (auto simp: startsWith_def)
  next
    assume "up_path_from (is_sep c) cs"
    from Cons.IH [OF this] show ?thesis
      by simp
  qed
qed

lemma show_nat_no_dot: "filter (\<lambda>c. c = CHR ''.'') (show_nat n) = []"
proof -
  have "CHR ''.'' \<notin> set (show_nat n)"
    using show_nat_digits [of "CHR ''.''" n] by (auto simp: digit_of_def digit_table_def)
  then show ?thesis
    by (auto simp: filter_empty_conv)
qed

lemma gen_filename_plain:
  "\<not> up_path_from True (gen_filename now rnd)" "\<not> dot_segment (gen_filename now rnd)"
proof -
  have "length (filter (\<lambda>c. c = CHR ''.'') (gen_filename now rnd)) = 1"
    by (simp add: gen_filename_def show_int_def show_nat_no_dot)
  with up_path_dots [of True "gen_filename now rnd"]
  show "\<not> up_path_from True (gen_filename now rnd)"
    by auto
  show "\<not> dot_segment (gen_filename now rnd)"
    by (simp add: dot_segment_def gen_filename_def)
qed

lemma resolve_generated:
  "resolve wd (''uploads/'' @ gen_filename now rnd) =
     (wd @ [''uploads'', gen_filename now rnd], False)"
  by (rule resolve_uploads) (simp_all add: gen_filename_no_sep gen_filename_not_dots)

lemma path_join_generated:
  "path_join base (gen_filename now rnd) = (base @ [gen_filename now rnd], False)"
  by (rule path_join_single) (simp_all add: gen_filename_no_sep gen_filename_not_dots)

lemma gen_filename_5_7: "gen_filename 5 7 = ''photo-5-7.jpg''"
  by (simp add: gen_filename_def show_int_def show_nat.simps digit_char_def)

lemma gen_filename_demo: "gen_filename 1700000000000 42 = ''photo-1700000000000-42.jpg''"
  by (simp add: gen_filename_def show_int_def show_nat.simps digit_char_def)

subsection \<open>Fetching a photo\<close>

lemma malicious_snoc: "malicious (p @ [s]) \<longleftrightarrow> malicious p \<or> up_path_from True s"
  by (simp add: malicious_def)

lemma containsDotFile_snoc: "containsDotFile (p @ [s]) \<longleftrightarrow> containsDotFile p \<or> dot_segment s"
  by (simp add: containsDotFile_def)

text \<open>
  C1, as amended. Take an uploads directory whose path has no segment that begins with a
  dot. For a file name that is one path segment (no separator, not empty, not \<^verbatim>\<open>.\<close> or
  \<^verbatim>\<open>..\<close>) the route looks at the entry of that name directly inside the uploads
  directory and at nothing else. It answers 404 when nothing is there. When something is
  there, it answers with an error of status 500 if \<^verbatim>\<open>..\<close> stands between separators
  in a segment of the path, or if the name begins with a dot; otherwise it sends the
  bytes of a regular file, and answers 404 for a directory. The index \<^verbatim>\<open>photos\<close> is
  not consulted.
\<close>

theorem get_photo_single_segment:
  assumes "CHR ''/'' \<notin> set filename" and "filename \<noteq> []"
    and "filename \<noteq> ''.''" and "filename \<noteq> ''..''"
    and "\<not> containsDotFile (uploadsDir env)"
  shows "get_photo env filename st =
     (case fs st (uploadsDir env @ [filename]) of
        None \<Rightarrow> Json 404 (Message False ''Photo not found'')
      | Some n \<Rightarrow>
          if malicious (uploadsDir env @ [filename]) then Json 500 (Message False ''Forbidden'')
          else if dot_segment filename then Json 500 (Message False ''Not Found'')
          else (case n of
                  Dir \<Rightarrow> Json 404 RouteNotFound
                | File b \<Rightarrow> SendFile (uploadsDir env @ [filename]) b))"
  using assms
  by (simp add: get_photo_def Let_def path_join_single existsSync_def sendFile_def
      containsDotFile_snoc error_middleware_def split: option.splits node.splits)

lemma demo_dir_plain:
  "\<not> containsDotFile (uploadsDir demo_env)" "\<not> malicious (uploadsDir demo_env)"
  by (simp_all add: containsDotFile_def dot_segment_def malicious_def is_sep_def startsWith_def
      uploadsDir_def demo_env_def)

theorem get_photo_single_segment_witness:
  "CHR ''/'' \<notin> set ''notes.txt'' \<and> \<not> containsDotFile (uploadsDir demo_env) \<and>
   get_photo demo_env ''notes.txt'' demo_state =
     SendFile [''srv'', ''backend'', ''uploads'', ''notes.txt''] ''left here'' \<and>
   get_photo demo_env ''photo-1-2.jpg'' demo_state = Json 404 (Message False ''Photo not found'')"
proof -
  have n: "\<not> dot_segment ''notes.txt''"
    by (simp add: dot_segment_def)
  have "\<not> up_path_from True ''notes.txt''"
    by (simp add: is_sep_def startsWith_def)
  with demo_dir_plain(2) have m: "\<not> malicious (uploadsDir demo_env @ [''notes.txt''])"
    by (simp only: malicious_snoc simp_thms)
  have f: "fs demo_state [''srv'', ''backend'', ''uploads'', ''notes.txt''] =
        Some (File ''left here'')"
      "fs demo_state [''srv'', ''backend'', ''uploads'', ''photo-1-2.jpg''] = None"
    by (simp_all add: demo_state_def demo_fs_def)
  have u: "uploadsDir demo_env @ [''notes.txt''] = [''srv'', ''backend'', ''uploads'', ''notes.txt'']"
      "uploadsDir demo_env @ [''photo-1-2.jpg''] =
        [''srv'', ''backend'', ''uploads'', ''photo-1-2.jpg'']"
    by (simp_all add: demo_env_def uploadsDir_def)
  from get_photo_single_segment [of "''notes.txt''" demo_env demo_state]
    get_photo_single_segment [of "''photo-1-2.jpg''" demo_env demo_state] demo_dir_plain(1)
  show ?thesis
    using m by (simp add: f n u)
qed

text \<open>
  C1 as stated fails. The parameter \<^verbatim>\<open>../index.js\<close> (the request path segment
  \<^verbatim>\<open>..%2Findex.js\<close>) holds a separator and a parent segment, and the route sends the
  server's own source file, which lies outside the uploads directory. And with an empty
  index the route sends \<^verbatim>\<open>notes.txt\<close>, a file in the uploads directory whose name is
  not of the generated form and has no record.
\<close>

theorem get_photo_traversal_counterexample:
  "CHR ''/'' \<in> set ''../index.js'' \<and>
   get_photo demo_env ''../index.js'' demo_state =
     SendFile [''srv'', ''backend'', ''index.js''] ''import express'' \<and>
   photos demo_state = [] \<and>
   get_photo demo_env ''notes.txt'' demo_state =
     SendFile [''srv'', ''backend'', ''uploads'', ''notes.txt''] ''left here''"
  by (simp add: get_photo_def path_join_def trailing_sep_def existsSync_def sendFile_def
      containsDotFile_def dot_segment_def malicious_def is_sep_def startsWith_def
      demo_env_def demo_state_def demo_fs_def uploadsDir_def)

subsection \<open>Uploads that are not images\<close>

lemma post_upload_non_image:
  "\<not> startsWith (mimetype file) ''image/'' \<Longrightarrow>
   post_upload env e (Some file) st =
     (Json 500 (Message False
        (if fieldname file = ''photo'' then ''Only image files are allowed!''
         else ''Unexpected field'')), st)"
  by (simp add: post_upload_def multer_single_def fileFilter_def error_middleware_def)

lemma startsWith_image:
  "startsWith m ''image/'' \<Longrightarrow> startsWith m ''image''"
  by (auto simp: startsWith_def take_Suc_conv_app_nth dest: arg_cong [where f = "take 5"])

text \<open>
  C2, as amended. An upload whose media type does not begin with \<^verbatim>\<open>image\<close> is
  rejected with status 500 and a message that says why; the state is the one before, so
  no record is appended and no file is created.
\<close>

theorem upload_non_image_rejected:
  "\<not> startsWith (mimetype file) ''image'' \<Longrightarrow>
   post_upload env e (Some file) st =
     (Json 500 (Message False
        (if fieldname file = ''photo'' then ''Only image files are allowed!''
         else ''Unexpected field'')), st)"
  using startsWith_image post_upload_non_image by blast

theorem upload_non_image_rejected_witness:
  "\<not> startsWith (mimetype (demo_part\<lparr>mimetype := ''text/plain''\<rparr>)) ''image'' \<and>
   post_upload demo_env demo_upload_env (Some (demo_part\<lparr>mimetype := ''text/plain''\<rparr>))
     demo_state =
     (Json 500 (Message False ''Only image files are allowed!''), demo_state)"
proof -
  have h: "\<not> startsWith (mimetype (demo_part\<lparr>mimetype := ''text/plain''\<rparr>)) ''image''"
    by (simp add: startsWith_def)
  from upload_non_image_rejected [OF h, of demo_env demo_upload_env demo_state] h
  show ?thesis by (simp add: demo_part_def)
qed

text \<open>
  C2 as stated fails: the status of the rejection of a \<^verbatim>\<open>text/plain\<close> upload is not
  a client error. The error of \<^verbatim>\<open>fileFilter\<close> is no \<^verbatim>\<open>MulterError\<close>, and the error
  middleware answers 500 to everything but \<^verbatim>\<open>LIMIT_FILE_SIZE\<close>.
\<close>

theorem upload_non_image_status_counterexample:
  "\<not> startsWith (mimetype (demo_part\<lparr>mimetype := ''text/plain''\<rparr>)) ''image'' \<and>
   \<not> is_client_error
       (fst (post_upload demo_env demo_upload_env
               (Some (demo_part\<lparr>mimetype := ''text/plain''\<rparr>)) demo_state))"
  by (simp add: startsWith_def post_upload_def multer_single_def fileFilter_def
      error_middleware_def is_client_error_def status_of_def demo_part_def)

subsection \<open>Deleting a photo\<close>

lemma parseInt_5: "parseInt ''5'' = Some 5"
  by (simp add: parseInt_def is_space_def startsWith_def digit_of_def digit_table_def
      number_of_def)

lemma one_photo_path:
  "resolve (cwd demo_env) (photo_path (photos one_photo_state ! 0)) =
     ([''srv'', ''backend'', ''uploads'', ''photo-5-7.jpg''], False)"
  using resolve_generated [of "cwd demo_env" 5 7]
  by (simp add: one_photo_state_def demo_photo_def gen_filename_5_7 demo_env_def)

text \<open>
  C6. When the record is present and removing its file fails, the delete still answers
  success and removes the entry from the index; the failure is written to the console
  and nothing else happens: the file system is the one before, so the file stays behind.
\<close>

theorem delete_swallows_unlink_failure:
  assumes "findIndex (\<lambda>p. Some (photo_id p) = parseInt idparam) (photos st) = Some i"
    and "existsSync (fs st) (resolve (cwd env) (photo_path (photos st ! i)))"
    and "unlinkSync failure (fs st) (resolve (cwd env) (photo_path (photos st ! i))) = Inl ioe"
  shows "delete_photo env failure idparam st =
     (Json 200 (Message True ''Photo deleted successfully''),
      st\<lparr>photos := splice1 i (photos st),
         console := console st @ [''Error deleting file: '' @ io_message ioe]\<rparr>)"
  using assms by (simp add: delete_photo_def Let_def)

theorem delete_swallows_unlink_failure_witness:
  "delete_photo demo_env (Some EACCES) ''5'' one_photo_state =
     (Json 200 (Message True ''Photo deleted successfully''),
      one_photo_state\<lparr>photos := [], console := [''Error deleting file: EACCES'']\<rparr>)"
proof -
  have h1: "findIndex (\<lambda>p. Some (photo_id p) = parseInt ''5'') (photos one_photo_state) = Some 0"
    by (simp add: parseInt_5 one_photo_state_def demo_photo_def)
  have h2: "existsSync (fs one_photo_state)
      (resolve (cwd demo_env) (photo_path (photos one_photo_state ! 0)))"
    by (simp add: one_photo_path) (simp add: existsSync_def one_photo_state_def)
  have h3: "unlinkSync (Some EACCES) (fs one_photo_state)
      (resolve (cwd demo_env) (photo_path (photos one_photo_state ! 0))) = Inl EACCES"
    by (simp add: one_photo_path) (simp add: unlinkSync_def one_photo_state_def)
  from delete_swallows_unlink_failure [OF h1 h2 h3]
  show ?thesis
    by (simp add: one_photo_state_def splice1_def io_message_def)
qed

subsection \<open>The path parameter of a delete\<close>

lemma digit_not_space:
  "digit_of 10 c \<noteq> None \<Longrightarrow> \<not> is_space c \<and> c \<noteq> CHR ''-'' \<and> c \<noteq> CHR ''+'' \<and> c \<noteq> CHR ''x'' \<and> c \<noteq> CHR ''X''"
  by (auto simp: is_space_def digit_of_def digit_table_def)

lemma parseInt_plain:
  assumes "\<not> startsWith s ''0x''" and "\<not> startsWith s ''0X''"
    and "s = [] \<or> \<not> (is_space (hd s) \<or> hd s = CHR ''-'' \<or> hd s = CHR ''+'')"
  shows "parseInt s = decimal_prefix s"
proof (cases s)
  case Nil
  then show ?thesis
    by (simp add: parseInt_def decimal_prefix_def startsWith_def)
next
  case (Cons c cs)
  with assms(3) have c: "\<not> is_space c" "c \<noteq> CHR ''-''" "c \<noteq> CHR ''+''"
    by simp_all
  from assms(1,2) Cons have h: "\<not> startsWith (c # cs) ''0x''" "\<not> startsWith (c # cs) ''0X''"
    by simp_all
  show ?thesis
    unfolding Cons by (simp add: parseInt_def decimal_prefix_def Let_def c h)
qed

lemma decimal_prefix_digits:
  assumes "\<forall>c\<in>set ds. digit_of 10 c \<noteq> None"
    and "rest = [] \<or> digit_of 10 (hd rest) = None"
  shows "parse_digits 10 (ds @ rest) = map (\<lambda>c. the (digit_of 10 c)) ds"
proof -
  from assms(2) have "parse_digits 10 rest = []"
    by (cases rest) auto
  with parse_digits_append [OF assms(1), of rest] show ?thesis
    by simp
qed

lemma startsWith_set:
  assumes "startsWith s p"
  shows "set p \<subseteq> set s"
proof -
  from assms have "set p = set (take (length p) s)"
    by (simp add: startsWith_def)
  then show ?thesis
    using set_take_subset [of "length p" s] by simp
qed

lemma show_nat_not_hex:
  "\<not> startsWith (show_nat n) [c, CHR ''x'']" "\<not> startsWith (show_nat n) [c, CHR ''X'']"
proof -
  show "\<not> startsWith (show_nat n) [c, CHR ''x'']"
  proof
    assume "startsWith (show_nat n) [c, CHR ''x'']"
    from startsWith_set [OF this] have "CHR ''x'' \<in> set (show_nat n)"
      by simp
    from show_nat_digits [OF this] show False
      by (simp add: digit_of_def digit_table_def)
  qed
  show "\<not> startsWith (show_nat n) [c, CHR ''X'']"
  proof
    assume "startsWith (show_nat n) [c, CHR ''X'']"
    from startsWith_set [OF this] have "CHR ''X'' \<in> set (show_nat n)"
      by simp
    from show_nat_digits [OF this] show False
      by (simp add: digit_of_def digit_table_def)
  qed
qed

lemma decimal_prefix_show_nat: "decimal_prefix (show_nat n) = Some (int n)"
proof -
  have "parse_digits 10 (show_nat n @ []) = map (\<lambda>c. the (digit_of 10 c)) (show_nat n)"
    by (rule decimal_prefix_digits) (simp_all add: show_nat_digits)
  then show ?thesis
    by (simp add: decimal_prefix_def number_of_show_nat show_nat_nonempty)
qed

lemma parseInt_show_nat: "parseInt (show_nat n) = Some (int n)"
proof -
  have "hd (show_nat n) \<in> set (show_nat n)"
    by (simp add: show_nat_nonempty)
  then have "digit_of 10 (hd (show_nat n)) \<noteq> None"
    by (rule show_nat_digits)
  from digit_not_space [OF this]
  have "parseInt (show_nat n) = decimal_prefix (show_nat n)"
    by (intro parseInt_plain) (simp_all add: show_nat_not_hex)
  then show ?thesis
    by (simp add: decimal_prefix_show_nat)
qed

lemma parseInt_minus_show_nat: "parseInt (CHR ''-'' # show_nat n) = Some (- int n)"
proof -
  have "hd (show_nat n) \<in> set (show_nat n)"
    by (simp add: show_nat_nonempty)
  then have "digit_of 10 (hd (show_nat n)) \<noteq> None"
    by (rule show_nat_digits)
  have 1: "parse_digits 10 (show_nat n) \<noteq> []"
    using decimal_prefix_show_nat [of n]
    by (simp add: decimal_prefix_def Let_def split: if_splits)
  have 2: "int (number_of 10 (parse_digits 10 (show_nat n))) = int n"
    using decimal_prefix_show_nat [of n]
    by (simp add: decimal_prefix_def Let_def split: if_splits)
  show ?thesis
    by (simp add: parseInt_def Let_def is_space_def show_nat_not_hex 1 2)
qed

lemma parseInt_show_int: "parseInt (show_int n) = Some n"
proof (cases "n < 0")
  case True
  then show ?thesis
    by (simp add: show_int_def parseInt_minus_show_nat)
next
  case False
  then show ?thesis
    by (simp add: show_int_def parseInt_show_nat)
qed

subsection \<open>Delete by id\<close>

lemma delete_not_found:
  "findIndex (\<lambda>p. Some (photo_id p) = parseInt s) (photos st) = None \<Longrightarrow>
   delete_photo env failure s st = (Json 404 (Message False ''Photo not found''), st)"
  by (simp add: delete_photo_def)

lemma delete_found:
  "findIndex (\<lambda>p. Some (photo_id p) = parseInt s) (photos st) = Some i \<Longrightarrow>
   fst (delete_photo env failure s st) = Json 200 (Message True ''Photo deleted successfully'') \<and>
   photos (snd (delete_photo env failure s st)) = splice1 i (photos st)"
  by (simp add: delete_photo_def Let_def split: sum.splits)

lemma set_splice1:
  assumes "x \<in> set (splice1 i xs)"
  shows "\<exists>j<length xs. j \<noteq> i \<and> x = xs ! j"
proof -
  from assms have "x \<in> set (take i xs) \<or> x \<in> set (drop (Suc i) xs)"
    by (simp add: splice1_def)
  then show ?thesis
  proof
    assume "x \<in> set (take i xs)"
    then obtain j where "j < length (take i xs)" "x = take i xs ! j"
      by (auto simp: in_set_conv_nth)
    then show ?thesis by (intro exI [of _ j]) auto
  next
    assume "x \<in> set (drop (Suc i) xs)"
    then obtain j where "j < length (drop (Suc i) xs)" "x = drop (Suc i) xs ! j"
      by (auto simp: in_set_conv_nth)
    then show ?thesis by (intro exI [of _ "Suc i + j"]) auto
  qed
qed

lemma splice1_none_left:
  assumes "\<forall>j<length xs. j \<noteq> i \<longrightarrow> \<not> P (xs ! j)"
  shows "\<forall>x\<in>set (splice1 i xs). \<not> P x"
  using assms set_splice1 by metis

lemma listed_ids_get_photos: "listed_ids (get_photos st) = map photo_id (photos st)"
  by (simp add: listed_ids_def listed_def get_photos_def view_of_def comp_def)

text \<open>
  C5, as amended. With \<open>show_int n\<close> as the path parameter: when no record has
  the id \<open>n\<close> the delete answers not-found and the state is the one before. When a
  record has it, the delete answers success and removes the first such record from the
  index, whatever happens to the file; if no other record has the id \<open>n\<close>, a search
  for \<open>n\<close> in the index then finds nothing and the list does not show \<open>n\<close>.
\<close>

theorem delete_by_id:
  "(case findIndex (\<lambda>p. photo_id p = n) (photos st) of
      None \<Rightarrow>
        delete_photo env failure (show_int n) st =
          (Json 404 (Message False ''Photo not found''), st)
    | Some i \<Rightarrow>
        fst (delete_photo env failure (show_int n) st) =
          Json 200 (Message True ''Photo deleted successfully'') \<and>
        photos (snd (delete_photo env failure (show_int n) st)) = splice1 i (photos st) \<and>
        ((\<forall>j<length (photos st). j \<noteq> i \<longrightarrow> photo_id (photos st ! j) \<noteq> n) \<longrightarrow>
           findIndex (\<lambda>p. photo_id p = n)
             (photos (snd (delete_photo env failure (show_int n) st))) = None \<and>
           n \<notin> set (listed_ids (get_photos (snd (delete_photo env failure (show_int n) st))))))"
proof (cases "findIndex (\<lambda>p. photo_id p = n) (photos st)")
  case None
  then show ?thesis
    by (simp add: delete_not_found parseInt_show_int)
next
  case (Some i)
  then have f: "findIndex (\<lambda>p. Some (photo_id p) = parseInt (show_int n)) (photos st) = Some i"
    by (simp add: parseInt_show_int)
  note d = delete_found [OF f, of env failure]
  have "\<forall>x\<in>set (splice1 i (photos st)). photo_id x \<noteq> n"
    if "\<forall>j<length (photos st). j \<noteq> i \<longrightarrow> photo_id (photos st ! j) \<noteq> n"
    using splice1_none_left [of "photos st" i "\<lambda>p. photo_id p = n"] that by simp
  with d Some show ?thesis
    by (auto simp: findIndex_None listed_ids_get_photos)
qed

lemma show_int_small: "show_int 5 = ''5''" "show_int 0 = ''0''" "show_int 7 = ''7''"
  by (simp_all add: show_int_def show_nat.simps digit_char_def)

theorem delete_by_id_witness:
  "fst (delete_photo demo_env None ''5'' one_photo_state) =
     Json 200 (Message True ''Photo deleted successfully'') \<and>
   photos (snd (delete_photo demo_env None ''5'' one_photo_state)) = [] \<and>
   findIndex (\<lambda>p. photo_id p = 5) (photos (snd (delete_photo demo_env None ''5'' one_photo_state)))
     = None \<and>
   5 \<notin> set (listed_ids (get_photos (snd (delete_photo demo_env None ''5'' one_photo_state)))) \<and>
   delete_photo demo_env None ''0'' one_photo_state =
     (Json 404 (Message False ''Photo not found''), one_photo_state)"
  using delete_by_id [where n = 5 and st = one_photo_state and env = demo_env and failure = None]
    delete_by_id [where n = 0 and st = one_photo_state and env = demo_env and failure = None]
  by (simp add: show_int_small one_photo_state_def demo_photo_def splice1_def)

lemma twin_paths:
  "resolve (cwd demo_env) (photo_path (demo_photo 7 3)) =
     ([''srv'', ''backend'', ''uploads'', ''photo-7-3.jpg''], False)"
  by (simp add: resolve_def trailing_sep_def demo_env_def demo_photo_def gen_filename_def
      show_int_def show_nat.simps digit_char_def)

lemma parseInt_7: "parseInt ''7'' = Some 7"
  by (simp add: parseInt_def is_space_def startsWith_def digit_of_def digit_table_def
      number_of_def)

text \<open>
  C5 as stated fails when two records have the same id, which is the clock value of
  their upload: the delete of id 7 succeeds, and a search for 7 still finds a record, and
  the list still shows 7.
\<close>

theorem delete_twin_counterexample:
  "findIndex (\<lambda>p. photo_id p = 7) (photos twin_state) = Some 0 \<and>
   fst (delete_photo demo_env None ''7'' twin_state) =
     Json 200 (Message True ''Photo deleted successfully'') \<and>
   findIndex (\<lambda>p. photo_id p = 7) (photos (snd (delete_photo demo_env None ''7'' twin_state)))
     = Some 0 \<and>
   listed_ids (get_photos (snd (delete_photo demo_env None ''7'' twin_state))) = [7]"
  by (simp add: delete_photo_def parseInt_7 Let_def twin_state_def twin_paths existsSync_def
      unlinkSync_def splice1_def listed_ids_get_photos)
    (simp add: demo_photo_def)

subsection \<open>Uploads step by step\<close>

lemma resolve_target:
  "resolve (cwd env) (''uploads/'' @ gen_filename (now_filename e) (random e)) =
     (upload_target env e, False)"
  using resolve_generated [of "cwd env" "now_filename e" "random e"]
  by (simp add: upload_target_def)

lemma butlast_target: "butlast (upload_target env e) = cwd env @ [''uploads'']"
  by (simp add: upload_target_def butlast_append)

lemma multer_single_image:
  assumes "fieldname file = ''photo''" and "startsWith (mimetype file) ''image/''"
  shows "multer_single env e (Some file) fsys =
     (case write_stream fsys (upload_target env e, False)
             (take fileSize_limit (content file)) (disk e) of
        (Inl ioe, fsys') \<Rightarrow> (Inl (Error (io_message ioe)), fsys')
      | (Inr u, fsys') \<Rightarrow>
          if fileSize_limit < length (content file) then
            (Inl (MulterError ''LIMIT_FILE_SIZE'' ''File too large''),
             (case unlinkSync (cleanup_failure e) fsys' (upload_target env e, False) of
                Inl ioe \<Rightarrow> fsys'
              | Inr fsys'' \<Rightarrow> fsys''))
          else
            (Inr (Some \<lparr>mf_filename = gen_filename (now_filename e) (random e),
                        mf_originalname = originalname file,
                        mf_path = ''uploads/'' @ gen_filename (now_filename e) (random e),
                        mf_size = length (take fileSize_limit (content file)),
                        mf_mimetype = mimetype file\<rparr>),
             fsys'))"
  unfolding multer_single_def Let_def resolve_target
  using assms by (simp add: fileFilter_def)

lemma write_stream_ok:
  assumes "fsys (cwd env @ [''uploads'']) = Some Dir"
    and "fsys (upload_target env e) \<noteq> Some Dir"
    and "d = WriteOk"
  shows "write_stream fsys (upload_target env e, False) bytes d =
     (Inr (), fsys(upload_target env e \<mapsto> File bytes))"
  using assms by (simp add: write_stream_def butlast_target) (simp add: upload_target_def)

lemma post_upload_ok:
  assumes "fieldname file = ''photo''" and "startsWith (mimetype file) ''image/''"
    and "fs st (cwd env @ [''uploads'']) = Some Dir"
    and "fs st (upload_target env e) \<noteq> Some Dir"
    and "disk e = WriteOk"
    and "length (content file) \<le> fileSize_limit"
  shows "post_upload env e (Some file) st =
     (Json 200 (Uploaded ''Photo uploaded successfully'' (upload_view_of (uploaded_photo e file))),
      st\<lparr>fs := (fs st)(upload_target env e \<mapsto> File (content file)),
         photos := photos st @ [uploaded_photo e file]\<rparr>)"
  using assms
  by (simp add: post_upload_def multer_single_image write_stream_ok upload_handler_def
      uploaded_photo_def)

lemma post_upload_None:
  "post_upload env e None st = (Json 400 (Message False ''No file uploaded''), st)"
  by (simp add: post_upload_def multer_single_def upload_handler_def)

lemma post_upload_other_field:
  "fieldname file \<noteq> ''photo'' \<Longrightarrow>
   post_upload env e (Some file) st = (Json 500 (Message False ''Unexpected field''), st)"
  by (simp add: post_upload_def multer_single_def error_middleware_def)

lemma post_upload_image:
  assumes "fieldname file = ''photo''" and "startsWith (mimetype file) ''image/''"
    and "post_upload env e (Some file) st = (r, st')"
  shows "(r = Json 200 (Uploaded ''Photo uploaded successfully''
                 (upload_view_of (uploaded_photo e file))) \<and>
          st' = st\<lparr>fs := (fs st)(upload_target env e \<mapsto> File (content file)),
                   photos := photos st @ [uploaded_photo e file]\<rparr> \<and>
          length (content file) \<le> fileSize_limit) \<or>
         (\<not> is_ok r \<and> uploaded_view r = None \<and> photos st' = photos st \<and>
          console st' = console st)"
  using assms(3)
  unfolding post_upload_def multer_single_image [OF assms(1,2)] write_stream_def
  by (auto simp: is_ok_def status_of_def error_middleware_def upload_handler_def
      uploaded_photo_def uploaded_view_def
      split: disk_outcome.splits sum.splits if_splits)

lemma post_upload_Some:
  assumes "post_upload env e (Some file) st = (r, st')"
  shows "(r = Json 200 (Uploaded ''Photo uploaded successfully''
                 (upload_view_of (uploaded_photo e file))) \<and>
          st' = st\<lparr>fs := (fs st)(upload_target env e \<mapsto> File (content file)),
                   photos := photos st @ [uploaded_photo e file]\<rparr> \<and>
          length (content file) \<le> fileSize_limit) \<or>
         (\<not> is_ok r \<and> uploaded_view r = None \<and> photos st' = photos st \<and>
          console st' = console st)"
proof (cases "fieldname file = ''photo''")
  case False
  from post_upload_other_field [OF this, of env e st] assms show ?thesis
    by (auto simp: is_ok_def status_of_def uploaded_view_def)
next
  case True
  show ?thesis
  proof (cases "startsWith (mimetype file) ''image/''")
    case False
    from post_upload_non_image [OF this, of env e st] assms show ?thesis
      by (auto simp: is_ok_def status_of_def uploaded_view_def)
  next
    case image: True
    from True image assms show ?thesis
      by (rule post_upload_image)
  qed
qed

subsection \<open>The write and the append\<close>

lemma demo_target:
  "upload_target demo_env demo_upload_env =
     [''srv'', ''backend'', ''uploads'', ''photo-1700000000000-42.jpg'']"
  "upload_target other_cwd_env demo_upload_env =
     [''srv'', ''uploads'', ''photo-1700000000000-42.jpg'']"
  by (simp_all add: upload_target_def demo_env_def other_cwd_env_def demo_upload_env_def
      gen_filename_demo)

lemma demo_part_image:
  "fieldname demo_part = ''photo''" "startsWith (mimetype demo_part) ''image/''"
  "content demo_part = ''JFIF''"
  by (simp_all add: demo_part_def startsWith_def)

lemma write_stream_refused:
  assumes "fsys (butlast p) \<noteq> Some Dir \<or> fsys p = Some Dir \<or> (\<exists>err. d = OpenErr err)"
  shows "\<exists>ioe. write_stream fsys (p, False) bytes d = (Inl ioe, fsys)"
  using assms by (auto simp: write_stream_def)

text \<open>
  C3, as amended. A successful upload had a file part, has appended exactly one record,
  and the complete blob is in the file at that record's path. A failed upload leaves the
  index as it was. An upload that never gets its file open for writing fails and leaves
  the whole state as it was. (What a write that fails after the file was opened leaves
  on disk is not part of this statement.)
\<close>

theorem upload_appends_only_after_write:
  assumes "post_upload env e part st = (r, st')"
  shows "(is_ok r \<longrightarrow>
      (\<exists>file. part = Some file \<and> photos st' = photos st @ [uploaded_photo e file] \<and>
         fs st' (fst (resolve (cwd env) (photo_path (uploaded_photo e file)))) =
           Some (File (content file)))) \<and>
    (\<not> is_ok r \<longrightarrow> photos st' = photos st) \<and>
    (\<not> opens_file env e part (fs st) \<longrightarrow> \<not> is_ok r \<and> st' = st)"
proof (cases part)
  case None
  with assms post_upload_None [of env e st] show ?thesis
    by (auto simp: is_ok_def status_of_def opens_file_def)
next
  case (Some f)
  have path: "fst (resolve (cwd env) (photo_path (uploaded_photo e f))) = upload_target env e"
    by (simp add: uploaded_photo_def photoData_def resolve_target del: append.simps)
  from assms Some have r: "post_upload env e (Some f) st = (r, st')"
    by simp
  have closed: "\<not> is_ok r \<and> st' = st" if "\<not> opens_file env e part (fs st)"
  proof (cases "fieldname f = ''photo''")
    case False
    from post_upload_other_field [OF this, of env e st] r show ?thesis
      by (simp add: is_ok_def status_of_def)
  next
    case True
    show ?thesis
    proof (cases "startsWith (mimetype f) ''image/''")
      case False
      from post_upload_non_image [OF this, of env e st] r show ?thesis
        by (auto simp: is_ok_def status_of_def)
    next
      case image: True
      from that Some True image
      have "fs st (cwd env @ [''uploads'']) \<noteq> Some Dir \<or>
          fs st (upload_target env e) = Some Dir \<or> (\<exists>err. disk e = OpenErr err)"
        by (auto simp: opens_file_def split: disk_outcome.splits)
      then have "fs st (butlast (upload_target env e)) \<noteq> Some Dir \<or>
          fs st (upload_target env e) = Some Dir \<or> (\<exists>err. disk e = OpenErr err)"
        by (simp add: butlast_target)
      from write_stream_refused [OF this]
      obtain ioe where "write_stream (fs st) (upload_target env e, False)
          (take fileSize_limit (content f)) (disk e) = (Inl ioe, fs st)"
        by blast
      with r show ?thesis
        by (auto simp: post_upload_def multer_single_image [OF True image]
            error_middleware_def is_ok_def status_of_def)
    qed
  qed
  from post_upload_Some [OF r] Some path closed show ?thesis
    by (auto simp: is_ok_def status_of_def)
qed

lemma demo_upload:
  "post_upload demo_env demo_upload_env (Some demo_part) demo_state =
     (Json 200 (Uploaded ''Photo uploaded successfully''
        (upload_view_of (uploaded_photo demo_upload_env demo_part))),
      demo_state
        \<lparr>fs := (fs demo_state)(upload_target demo_env demo_upload_env \<mapsto> File (content demo_part)),
         photos := photos demo_state @ [uploaded_photo demo_upload_env demo_part]\<rparr>)"
  by (rule post_upload_ok)
    (simp_all add: demo_part_image demo_target, 
      simp_all add: demo_state_def demo_fs_def demo_env_def demo_upload_env_def fileSize_limit_def)

theorem upload_appends_only_after_write_witness:
  "is_ok (fst (post_upload demo_env demo_upload_env (Some demo_part) demo_state)) \<and>
   photos (snd (post_upload demo_env demo_upload_env (Some demo_part) demo_state)) =
     [uploaded_photo demo_upload_env demo_part] \<and>
   fs (snd (post_upload demo_env demo_upload_env (Some demo_part) demo_state))
     [''srv'', ''backend'', ''uploads'', ''photo-1700000000000-42.jpg''] = Some (File ''JFIF'') \<and>
   \<not> opens_file demo_env demo_upload_env None (fs demo_state) \<and>
   snd (post_upload demo_env demo_upload_env None demo_state) = demo_state"
proof -
  have ok: "is_ok (fst (post_upload demo_env demo_upload_env (Some demo_part) demo_state))"
    by (simp add: demo_upload is_ok_def status_of_def)
  have path: "fst (resolve (cwd demo_env) (photo_path (uploaded_photo demo_upload_env demo_part)))
      = [''srv'', ''backend'', ''uploads'', ''photo-1700000000000-42.jpg'']"
    by (simp add: uploaded_photo_def photoData_def resolve_target demo_target del: append.simps)
  have no: "\<not> opens_file demo_env demo_upload_env None (fs demo_state)"
    by (simp add: opens_file_def)
  from upload_appends_only_after_write
      [of demo_env demo_upload_env "Some demo_part" demo_state
        "fst (post_upload demo_env demo_upload_env (Some demo_part) demo_state)"
        "snd (post_upload demo_env demo_upload_env (Some demo_part) demo_state)"]
    upload_appends_only_after_write
      [of demo_env demo_upload_env None demo_state
        "fst (post_upload demo_env demo_upload_env None demo_state)"
        "snd (post_upload demo_env demo_upload_env None demo_state)"]
    ok no path
  show ?thesis
    by (simp add: demo_state_def demo_part_image)
qed

text \<open>
  C3 as stated fails. The disk fills up after two bytes of the blob: the upload fails
  with status 500 and appends no record, and the file with the two bytes stays in the
  uploads directory, where the fetch route serves it.
\<close>

theorem upload_partial_file_counterexample:
  "fst (post_upload demo_env full_disk_env (Some demo_part) demo_state) =
     Json 500 (Message False ''ENOSPC'') \<and>
   photos (snd (post_upload demo_env full_disk_env (Some demo_part) demo_state)) = [] \<and>
   get_photo demo_env ''photo-1700000000000-42.jpg''
       (snd (post_upload demo_env full_disk_env (Some demo_part) demo_state)) =
     SendFile [''srv'', ''backend'', ''uploads'', ''photo-1700000000000-42.jpg''] ''JF''"
proof -
  have t: "upload_target demo_env full_disk_env =
      [''srv'', ''backend'', ''uploads'', ''photo-1700000000000-42.jpg'']"
    using demo_target(1) by (simp add: upload_target_def full_disk_env_def)
  have w: "write_stream (fs demo_state) (upload_target demo_env full_disk_env, False)
      (take fileSize_limit ''JFIF'') (disk full_disk_env) =
      (Inl ENOSPC, (fs demo_state)
         ([''srv'', ''backend'', ''uploads'', ''photo-1700000000000-42.jpg''] \<mapsto> File ''JF''))"
    unfolding t
    by (simp add: write_stream_def demo_state_def demo_fs_def full_disk_env_def
        fileSize_limit_def)
  have R: "post_upload demo_env full_disk_env (Some demo_part) demo_state =
      (Json 500 (Message False ''ENOSPC''),
       demo_state\<lparr>fs := (fs demo_state)
         ([''srv'', ''backend'', ''uploads'', ''photo-1700000000000-42.jpg''] \<mapsto> File ''JF'')\<rparr>)"
    by (simp add: post_upload_def multer_single_image demo_part_image w error_middleware_def
        io_message_def)
  show ?thesis
    unfolding R fst_conv snd_conv
    by (simp add: get_photo_def path_join_def trailing_sep_def uploadsDir_def demo_env_def
        existsSync_def sendFile_def containsDotFile_def dot_segment_def malicious_def
        is_sep_def startsWith_def demo_state_def)
qed

text \<open>
  Upload and fetch agree when the working directory is the directory of the server's
  file (and express has nothing against the path of the uploads directory): the fetch of
  the returned file name sends the uploaded bytes.
\<close>

lemma round_trip_same_dir:
  assumes "cwd env = dirname env"
    and "post_upload env e (Some file) st = (r, st')"
    and "uploaded_view r = Some v"
    and "\<not> containsDotFile (uploadsDir env)" and "\<not> malicious (uploadsDir env)"
  shows "up_url v = ''/api/photos/'' @ up_filename v \<and>
    get_photo env (up_filename v) st' = SendFile (uploadsDir env @ [up_filename v]) (content file)"
proof -
  from post_upload_Some [OF assms(2)] assms(3)
  have r: "r = Json 200 (Uploaded ''Photo uploaded successfully''
        (upload_view_of (uploaded_photo e file)))"
    and st': "st' = st\<lparr>fs := (fs st)(upload_target env e \<mapsto> File (content file)),
        photos := photos st @ [uploaded_photo e file]\<rparr>"
    by auto
  from r assms(3) have v: "v = upload_view_of (uploaded_photo e file)"
    by (simp add: uploaded_view_def)
  have name: "up_filename v = gen_filename (now_filename e) (random e)"
    by (simp add: v upload_view_of_def uploaded_photo_def photoData_def)
  have target: "upload_target env e = uploadsDir env @ [up_filename v]"
    by (simp add: upload_target_def uploadsDir_def assms(1) name)
  have "get_photo env (up_filename v) st' =
      SendFile (uploadsDir env @ [up_filename v]) (content file)"
    unfolding name get_photo_def Let_def path_join_generated
    using assms(4,5)
    by (simp add: st' existsSync_def sendFile_def target [unfolded name] containsDotFile_snoc
        malicious_snoc gen_filename_plain)
  moreover have "up_url v = ''/api/photos/'' @ up_filename v"
    by (simp add: v upload_view_of_def)
  ultimately show ?thesis by simp
qed

text \<open>
  C4 fails when the process was not started in the directory of the server's file.
  The upload of an \<^verbatim>\<open>image/jpeg\<close> blob succeeds and returns a url; the blob is in
  \<^verbatim>\<open>/srv/uploads\<close>, where multer's relative destination \<^verbatim>\<open>uploads/\<close> points; the
  fetch of the returned file name looks in \<^verbatim>\<open>/srv/backend/uploads\<close> and answers
  not-found.
\<close>

theorem round_trip_other_cwd:
  "mimetype demo_part = ''image/jpeg'' \<and>
   uploaded_view (fst (post_upload other_cwd_env demo_upload_env (Some demo_part) demo_state)) =
     Some \<lparr>up_id = 1700000000001, up_filename = ''photo-1700000000000-42.jpg'',
           up_url = ''/api/photos/photo-1700000000000-42.jpg'',
           up_timestamp = 1700000000001\<rparr> \<and>
   fs (snd (post_upload other_cwd_env demo_upload_env (Some demo_part) demo_state))
     [''srv'', ''uploads'', ''photo-1700000000000-42.jpg''] = Some (File ''JFIF'') \<and>
   get_photo other_cwd_env ''photo-1700000000000-42.jpg''
       (snd (post_upload other_cwd_env demo_upload_env (Some demo_part) demo_state)) =
     Json 404 (Message False ''Photo not found'')"
proof -
  let ?st = "demo_state
        \<lparr>fs := (fs demo_state)
           ([''srv'', ''uploads'', ''photo-1700000000000-42.jpg''] \<mapsto> File ''JFIF''),
         photos := photos demo_state @ [uploaded_photo demo_upload_env demo_part]\<rparr>"
  have "post_upload other_cwd_env demo_upload_env (Some demo_part) demo_state =
     (Json 200 (Uploaded ''Photo uploaded successfully''
        (upload_view_of (uploaded_photo demo_upload_env demo_part))),
      demo_state
        \<lparr>fs := (fs demo_state)(upload_target other_cwd_env demo_upload_env \<mapsto> File (content demo_part)),
         photos := photos demo_state @ [uploaded_photo demo_upload_env demo_part]\<rparr>)"
    by (rule post_upload_ok)
      (simp_all add: demo_part_image demo_target,
        simp_all add: demo_state_def demo_fs_def other_cwd_env_def demo_upload_env_def
          fileSize_limit_def)
  then have R: "post_upload other_cwd_env demo_upload_env (Some demo_part) demo_state =
     (Json 200 (Uploaded ''Photo uploaded successfully''
        (upload_view_of (uploaded_photo demo_upload_env demo_part))), ?st)"
    by (simp only: demo_target demo_part_image)
  have 1: "uploaded_view (Json 200 (Uploaded ''Photo uploaded successfully''
        (upload_view_of (uploaded_photo demo_upload_env demo_part)))) =
      Some \<lparr>up_id = 1700000000001, up_filename = ''photo-1700000000000-42.jpg'',
           up_url = ''/api/photos/photo-1700000000000-42.jpg'',
           up_timestamp = 1700000000001\<rparr>"
    by (simp add: uploaded_view_def upload_view_of_def uploaded_photo_def photoData_def)
      (simp add: demo_upload_env_def gen_filename_demo)
  have 2: "fs ?st [''srv'', ''uploads'', ''photo-1700000000000-42.jpg''] = Some (File ''JFIF'')"
    by simp
  have 3: "get_photo other_cwd_env ''photo-1700000000000-42.jpg'' ?st =
      Json 404 (Message False ''Photo not found'')"
    by (simp add: get_photo_def path_join_def trailing_sep_def uploadsDir_def
        other_cwd_env_def existsSync_def demo_state_def demo_fs_def)
  have 4: "mimetype demo_part = ''image/jpeg''"
    by (simp add: demo_part_def)
  show ?thesis
    unfolding R fst_conv snd_conv using 1 2 3 4 by blast
qed

subsection \<open>The size limit and the file names\<close>

lemma write_stream_takes:
  assumes "fsys (cwd env @ [''uploads'']) = Some Dir"
    and "fsys (upload_target env e) \<noteq> Some Dir"
    and "disk_takes d (length bytes)"
  shows "write_stream fsys (upload_target env e, False) bytes d =
     (Inr (), fsys(upload_target env e \<mapsto> File bytes))"
  using assms
  by (simp add: write_stream_def butlast_target disk_takes_def split: disk_outcome.splits)
    (simp_all add: upload_target_def)

lemma post_upload_oversize:
  assumes "fileSize_limit < length (content file)"
    and "opens_file env e (Some file) (fs st)"
    and "disk_takes (disk e) fileSize_limit"
  shows "post_upload env e (Some file) st =
     (Json 400 (Message False ''File too large. Maximum size is 10MB.''),
      st\<lparr>fs := (if cleanup_failure e = None then (fs st)(upload_target env e := None)
                else (fs st)(upload_target env e \<mapsto>
                       File (take fileSize_limit (content file))))\<rparr>)"
proof -
  from assms(2) have f: "fieldname file = ''photo''" "startsWith (mimetype file) ''image/''"
    and d: "fs st (cwd env @ [''uploads'']) = Some Dir" "fs st (upload_target env e) \<noteq> Some Dir"
    by (simp_all add: opens_file_def)
  from assms(1,3) have "disk_takes (disk e) (length (take fileSize_limit (content file)))"
    by simp
  from write_stream_takes [OF d this] assms(1) show ?thesis
    by (auto simp: post_upload_def multer_single_image [OF f] unlinkSync_def
        error_middleware_def)
qed

text \<open>
  C8, as amended. An image part in the field \<^verbatim>\<open>photo\<close> that is longer than 10 MiB,
  for which the file can be opened in the uploads directory and the disk takes the first
  10 MiB, is rejected with status 400 and the message that names the limit, and no record
  is appended. The first 10 MiB were written to the generated path by then; multer
  removes that file before the response, and they stay on disk only if that removal
  fails.
\<close>

theorem oversize_image_rejected:
  assumes "fileSize_limit < length (content file)"
    and "opens_file env e (Some file) (fs st)"
    and "disk_takes (disk e) fileSize_limit"
  shows "post_upload env e (Some file) st =
     (Json 400 (Message False ''File too large. Maximum size is 10MB.''),
      st\<lparr>fs := (if cleanup_failure e = None then (fs st)(upload_target env e := None)
                else (fs st)(upload_target env e \<mapsto>
                       File (take fileSize_limit (content file))))\<rparr>)"
  using assms by (rule post_upload_oversize)

lemma big_parts:
  "fieldname big_image_part = ''photo''" "startsWith (mimetype big_image_part) ''image/''"
  "fileSize_limit < length (content big_image_part)"
  "fileSize_limit < length (content big_text_part)"
  "\<not> startsWith (mimetype big_text_part) ''image/''"
  by (simp_all add: big_image_part_def big_text_part_def demo_part_def startsWith_def)

lemma demo_free_any: "fs demo_state (upload_target demo_env e) \<noteq> Some Dir"
  by (simp add: upload_target_def demo_env_def demo_state_def demo_fs_def)

lemma demo_dir: "fs demo_state (cwd demo_env @ [''uploads'']) = Some Dir"
  by (simp add: demo_state_def demo_fs_def demo_env_def)

lemma big_image_opens:
  "opens_file demo_env demo_upload_env (Some big_image_part) (fs demo_state)"
  "opens_file demo_env stuck_cleanup_env (Some big_image_part) (fs demo_state)"
  "disk_takes (disk demo_upload_env) fileSize_limit"
  "disk_takes (disk stuck_cleanup_env) fileSize_limit"
  by (simp_all add: opens_file_def big_parts demo_dir demo_free_any disk_takes_def)
    (simp_all add: demo_upload_env_def stuck_cleanup_env_def)

theorem oversize_image_rejected_witness:
  "fileSize_limit < length (content big_image_part) \<and>
   fst (post_upload demo_env demo_upload_env (Some big_image_part) demo_state) =
     Json 400 (Message False ''File too large. Maximum size is 10MB.'') \<and>
   photos (snd (post_upload demo_env demo_upload_env (Some big_image_part) demo_state)) = [] \<and>
   fs (snd (post_upload demo_env demo_upload_env (Some big_image_part) demo_state))
     (upload_target demo_env demo_upload_env) = None"
proof -
  have c: "cleanup_failure demo_upload_env = None"
    by (simp add: demo_upload_env_def)
  from oversize_image_rejected [OF big_parts(3) big_image_opens(1,3)] c big_parts(3)
  show ?thesis
    by (simp add: demo_state_def)
qed

text \<open>
  C8 as stated fails, in each of its parts, for a part one byte longer than 10 MiB. A
  part that is not an image, and an image in another field, are turned away before the
  limit is looked at, with status 500 and a message that says nothing of the limit. An
  image whose file the disk refuses to open, and one during whose write the disk fills
  up, are answered with the error of the disk and status 500. And when multer cannot
  remove the file it wrote, the answer is the one about the limit, and the first 10 MiB
  of the part are on disk afterwards.
\<close>

theorem oversize_non_image_counterexample:
  "fileSize_limit < length (content big_text_part) \<and>
   post_upload demo_env demo_upload_env (Some big_text_part) demo_state =
     (Json 500 (Message False ''Only image files are allowed!''), demo_state) \<and>
   fileSize_limit < length (content big_other_field_part) \<and>
   post_upload demo_env demo_upload_env (Some big_other_field_part) demo_state =
     (Json 500 (Message False ''Unexpected field''), demo_state) \<and>
   fileSize_limit < length (content big_image_part) \<and>
   post_upload demo_env closed_disk_env (Some big_image_part) demo_state =
     (Json 500 (Message False ''EACCES''), demo_state) \<and>
   fst (post_upload demo_env full_disk_env (Some big_image_part) demo_state) =
     Json 500 (Message False ''ENOSPC'') \<and>
   fst (post_upload demo_env stuck_cleanup_env (Some big_image_part) demo_state) =
     Json 400 (Message False ''File too large. Maximum size is 10MB.'') \<and>
   fs (snd (post_upload demo_env stuck_cleanup_env (Some big_image_part) demo_state))
       (upload_target demo_env stuck_cleanup_env) =
     Some (File (take fileSize_limit (content big_image_part))) \<and>
   length (take fileSize_limit (content big_image_part)) = fileSize_limit"
proof -
  have "fieldname big_text_part = ''photo''"
    by (simp add: big_text_part_def big_image_part_def demo_part_def)
  with post_upload_non_image [OF big_parts(5), of demo_env demo_upload_env demo_state]
  have 1: "post_upload demo_env demo_upload_env (Some big_text_part) demo_state =
      (Json 500 (Message False ''Only image files are allowed!''), demo_state)"
    by simp
  have "fieldname big_other_field_part \<noteq> ''photo''"
    by (simp add: big_other_field_part_def)
  then have 2: "post_upload demo_env demo_upload_env (Some big_other_field_part) demo_state =
      (Json 500 (Message False ''Unexpected field''), demo_state)"
    by (rule post_upload_other_field)
  have len: "fileSize_limit < length (content big_other_field_part)"
    using big_parts(3) by (simp add: big_other_field_part_def)
  have "write_stream (fs demo_state) (upload_target demo_env closed_disk_env, False)
      (take fileSize_limit (content big_image_part)) (disk closed_disk_env) =
      (Inl EACCES, fs demo_state)"
    using demo_dir demo_free_any [of closed_disk_env]
    by (simp add: write_stream_def butlast_target closed_disk_env_def)
      (simp add: upload_target_def)
  then have 3: "post_upload demo_env closed_disk_env (Some big_image_part) demo_state =
      (Json 500 (Message False ''EACCES''), demo_state)"
    by (simp add: post_upload_def multer_single_image [OF big_parts(1,2)] error_middleware_def
        io_message_def)
  have "2 < length (take fileSize_limit (content big_image_part))"
    using big_parts(3) by (simp add: fileSize_limit_def)
  then have "write_stream (fs demo_state) (upload_target demo_env full_disk_env, False)
      (take fileSize_limit (content big_image_part)) (disk full_disk_env) =
      (Inl ENOSPC, (fs demo_state)(upload_target demo_env full_disk_env \<mapsto>
         File (take 2 (take fileSize_limit (content big_image_part)))))"
    using demo_dir demo_free_any [of full_disk_env]
    by (simp add: write_stream_def butlast_target full_disk_env_def del: length_take take_take)
      (simp add: upload_target_def)
  then have 7: "fst (post_upload demo_env full_disk_env (Some big_image_part) demo_state) =
      Json 500 (Message False ''ENOSPC'')"
    by (simp add: post_upload_def multer_single_image [OF big_parts(1,2)] error_middleware_def
        io_message_def del: length_take take_take)
  have c: "cleanup_failure stuck_cleanup_env \<noteq> None"
    by (simp add: stuck_cleanup_env_def)
  from post_upload_oversize [OF big_parts(3) big_image_opens(2,4)] c
  have 4: "fst (post_upload demo_env stuck_cleanup_env (Some big_image_part) demo_state) =
      Json 400 (Message False ''File too large. Maximum size is 10MB.'')"
    and 5: "fs (snd (post_upload demo_env stuck_cleanup_env (Some big_image_part) demo_state))
       (upload_target demo_env stuck_cleanup_env) =
      Some (File (take fileSize_limit (content big_image_part)))"
    by simp_all
  have 6: "length (take fileSize_limit (content big_image_part)) = fileSize_limit"
    using big_parts(3) by simp
  from 1 2 3 4 5 6 7 big_parts(3,4) len show ?thesis
    by blast
qed

lemma uploaded_view_filename:
  assumes "uploaded_view (fst (post_upload env e part st)) = Some v"
  shows "up_filename v = gen_filename (now_filename e) (random e)"
proof (cases part)
  case None
  with assms show ?thesis
    by (simp add: post_upload_None uploaded_view_def)
next
  case (Some f)
  obtain r st' where r: "post_upload env e (Some f) st = (r, st')"
    by (cases "post_upload env e (Some f) st")
  with assms Some have "uploaded_view r = Some v"
    by simp
  with post_upload_Some [OF r]
  have "v = upload_view_of (uploaded_photo e f)"
    by (auto simp: uploaded_view_def)
  then show ?thesis
    by (simp add: upload_view_of_def uploaded_photo_def photoData_def)
qed

text \<open>
  C9, as amended. The file name of a successful upload is a function of the clock value
  and the random number read in the \<^verbatim>\<open>filename\<close> callback, and a one-to-one function:
  two successful uploads return the same file name exactly when they read the same clock
  value and drew the same random number.
\<close>

theorem uploaded_filenames_differ:
  assumes "uploaded_view (fst (post_upload env1 e1 part1 st1)) = Some v1"
    and "uploaded_view (fst (post_upload env2 e2 part2 st2)) = Some v2"
  shows "up_filename v1 = up_filename v2 \<longleftrightarrow>
    now_filename e1 = now_filename e2 \<and> random e1 = random e2"
  using uploaded_view_filename [OF assms(1)] uploaded_view_filename [OF assms(2)]
    gen_filename_inj [of "now_filename e1" "random e1" "now_filename e2" "random e2"]
  by auto

subsection \<open>Runs of uploads and the list\<close>

lemma target_not_dir: "upload_target env e \<noteq> cwd env @ [''uploads'']"
  by (simp add: upload_target_def)

lemma run_uploads_Cons:
  "fst (run_uploads env (u # us) st) =
     fst (post_upload env (fst u) (snd u) st) #
     fst (run_uploads env us (snd (post_upload env (fst u) (snd u) st)))"
  "snd (run_uploads env (u # us) st) =
     snd (run_uploads env us (snd (post_upload env (fst u) (snd u) st)))"
  by (simp_all split: prod.splits)

lemma run_uploads_ok:
  assumes "fs st (cwd env @ [''uploads'']) = Some Dir"
    and "\<forall>u\<in>set us. \<exists>f. snd u = Some f \<and> fieldname f = ''photo'' \<and>
           startsWith (mimetype f) ''image/'' \<and> length (content f) \<le> fileSize_limit \<and>
           disk (fst u) = WriteOk \<and> fs st (upload_target env (fst u)) \<noteq> Some Dir"
  shows "list_all is_ok (fst (run_uploads env us st))"
  using assms
proof (induction us arbitrary: st)
  case Nil
  then show ?case by simp
next
  case (Cons u us)
  from Cons.prems(2) obtain f where f: "snd u = Some f" "fieldname f = ''photo''"
      "startsWith (mimetype f) ''image/''" "length (content f) \<le> fileSize_limit"
      "disk (fst u) = WriteOk" "fs st (upload_target env (fst u)) \<noteq> Some Dir"
    by auto
  let ?st = "st\<lparr>fs := (fs st)(upload_target env (fst u) \<mapsto> File (content f)),
                  photos := photos st @ [uploaded_photo (fst u) f]\<rparr>"
  have step: "post_upload env (fst u) (snd u) st =
      (Json 200 (Uploaded ''Photo uploaded successfully''
         (upload_view_of (uploaded_photo (fst u) f))), ?st)"
    unfolding f(1) using f(2,3) Cons.prems(1) f(6,5,4) by (rule post_upload_ok)
  have dir: "fs ?st (cwd env @ [''uploads'']) = Some Dir"
    using Cons.prems(1) target_not_dir [of env "fst u"] by auto
  have rest: "\<forall>u\<in>set us. \<exists>f. snd u = Some f \<and> fieldname f = ''photo'' \<and>
           startsWith (mimetype f) ''image/'' \<and> length (content f) \<le> fileSize_limit \<and>
           disk (fst u) = WriteOk \<and> fs ?st (upload_target env (fst u)) \<noteq> Some Dir"
    using Cons.prems(2) by auto
  from Cons.IH [OF dir rest] show ?case
    unfolding run_uploads_Cons step fst_conv snd_conv
    by (simp add: is_ok_def status_of_def)
qed

lemma view_core_view_of: "view_core (view_of p) = upload_view_of p"
  by (simp add: view_core_def view_of_def upload_view_of_def)

lemma run_uploads_photos:
  assumes "list_all is_ok (fst (run_uploads env us st))"
  shows "photos (snd (run_uploads env us st)) = photos st @ new_photos us \<and>
    map uploaded_view (fst (run_uploads env us st)) = map (\<lambda>p. Some (upload_view_of p)) (new_photos us) \<and>
    map photo_id (new_photos us) = map (\<lambda>u. now_id (fst u)) us"
  using assms
proof (induction us arbitrary: st)
  case Nil
  then show ?case by simp
next
  case (Cons u us)
  obtain r st1 where r: "post_upload env (fst u) (snd u) st = (r, st1)"
    by (cases "post_upload env (fst u) (snd u) st")
  from Cons.prems have ok: "is_ok r" and rest: "list_all is_ok (fst (run_uploads env us st1))"
    unfolding run_uploads_Cons r fst_conv snd_conv by simp_all
  show ?case
  proof (cases "snd u")
    case None
    with r ok show ?thesis
      by (auto simp: post_upload_None is_ok_def status_of_def)
  next
    case (Some f)
    with r have "post_upload env (fst u) (Some f) st = (r, st1)"
      by simp
    from post_upload_Some [OF this] ok
    have r': "r = Json 200 (Uploaded ''Photo uploaded successfully''
          (upload_view_of (uploaded_photo (fst u) f)))"
      and st1: "photos st1 = photos st @ [uploaded_photo (fst u) f]"
      by auto
    from Cons.IH [OF rest] r' st1 Some show ?thesis
      unfolding run_uploads_Cons r fst_conv snd_conv
      by (simp add: uploaded_view_def uploaded_photo_def photoData_def)
  qed
qed

text \<open>
  C7, as amended. The list response for a state \<open>s\<close> holds the records of the index in
  the order of the index, and its count is the length of that list. After a run of
  uploads that all succeed, the index is the index before followed by one record for
  each upload, in the order of the uploads; the entries the list shows for them are the
  ones the upload responses returned, and their ids are the clock values of the uploads.
  Starting from an empty index the list shows exactly these ids, and they are in
  non-decreasing order exactly when the clock values of the uploads are.
\<close>

theorem list_in_upload_order:
  assumes "list_all is_ok (fst (run_uploads env us st))"
  shows "(case listed (get_photos s) of
            None \<Rightarrow> False
          | Some (n, vs) \<Rightarrow> n = length vs \<and> vs = map view_of (photos s)) \<and>
    photos (snd (run_uploads env us st)) = photos st @ new_photos us \<and>
    get_photos (snd (run_uploads env us st)) =
      Json 200 (PhotoList (length (photos st) + length us)
        (map view_of (photos st) @ map view_of (new_photos us))) \<and>
    map (\<lambda>p. Some (view_core (view_of p))) (new_photos us) =
      map uploaded_view (fst (run_uploads env us st)) \<and>
    map photo_id (new_photos us) = map (\<lambda>u. now_id (fst u)) us \<and>
    (photos st = [] \<longrightarrow>
       listed_ids (get_photos (snd (run_uploads env us st))) = map (\<lambda>u. now_id (fst u)) us \<and>
       (sorted (listed_ids (get_photos (snd (run_uploads env us st)))) \<longleftrightarrow>
          sorted (map (\<lambda>u. now_id (fst u)) us)))"
proof -
  note p = run_uploads_photos [OF assms]
  from p have len: "length (new_photos us) = length us"
    using length_map [of photo_id "new_photos us"] by simp
  have 1: "case listed (get_photos s) of
            None \<Rightarrow> False
          | Some (n, vs) \<Rightarrow> n = length vs \<and> vs = map view_of (photos s)"
    by (simp add: listed_def get_photos_def)
  have 2: "get_photos (snd (run_uploads env us st)) =
      Json 200 (PhotoList (length (photos st) + length us)
        (map view_of (photos st) @ map view_of (new_photos us)))"
    using p len by (simp add: get_photos_def)
  have 3: "map (\<lambda>p. Some (view_core (view_of p))) (new_photos us) =
      map uploaded_view (fst (run_uploads env us st))"
    using p by (simp add: view_core_view_of)
  have 4: "listed_ids (get_photos (snd (run_uploads env us st))) =
      map (\<lambda>u. now_id (fst u)) us" if "photos st = []"
    using p that by (simp add: listed_ids_get_photos)
  from p 1 2 3 4 show ?thesis
    by simp
qed

lemma gen_filename_small:
  "gen_filename 100 3 = ''photo-100-3.jpg''"
  "gen_filename 100 4 = ''photo-100-4.jpg''"
  "gen_filename 102 5 = ''photo-102-5.jpg''"
  by (simp_all add: gen_filename_def show_int_def show_nat.simps digit_char_def)

lemma upload_at_fields:
  "now_filename (upload_at t rnd) = t" "random (upload_at t rnd) = rnd"
  "now_id (upload_at t rnd) = t" "now_timestamp (upload_at t rnd) = t"
  "disk (upload_at t rnd) = WriteOk" "cleanup_failure (upload_at t rnd) = None"
  by (simp_all add: upload_at_def)

lemma demo_free:
  "fs demo_state (upload_target demo_env (upload_at 100 3)) \<noteq> Some Dir"
  "fs demo_state (upload_target demo_env (upload_at 100 4)) \<noteq> Some Dir"
  "fs demo_state (upload_target demo_env (upload_at 102 5)) \<noteq> Some Dir"
  by (simp_all add: upload_target_def upload_at_fields gen_filename_small)
    (simp_all add: demo_state_def demo_fs_def demo_env_def)

lemma demo_part_fits: "length (content demo_part) \<le> fileSize_limit"
  by (simp add: demo_part_def fileSize_limit_def)

lemma three_uploads_ok:
  "list_all is_ok (fst (run_uploads demo_env three_uploads demo_state))"
  using demo_dir
  by (rule run_uploads_ok)
    (simp add: three_uploads_def demo_part_image fileSize_limit_def upload_at_fields demo_free)

lemma same_draw_uploads_ok:
  "list_all is_ok (fst (run_uploads demo_env same_draw_uploads demo_state))"
  using demo_dir
  by (rule run_uploads_ok)
    (simp add: same_draw_uploads_def demo_part_image fileSize_limit_def upload_at_fields
      demo_free)

theorem list_in_upload_order_witness:
  "list_all is_ok (fst (run_uploads demo_env three_uploads demo_state)) \<and>
   map_option fst (listed (get_photos (snd (run_uploads demo_env three_uploads demo_state)))) =
     Some 3 \<and>
   listed_ids (get_photos (snd (run_uploads demo_env three_uploads demo_state))) =
     [100, 100, 102] \<and>
   map (map_option up_id) (map uploaded_view (fst (run_uploads demo_env three_uploads demo_state))) =
     [Some 100, Some 100, Some 102]"
proof -
  note t = list_in_upload_order [OF three_uploads_ok,
      of "snd (run_uploads demo_env three_uploads demo_state)"]
  have len: "length three_uploads = 3" and ids: "map (\<lambda>u. now_id (fst u)) three_uploads = [100, 100, 102]"
    by (simp_all add: three_uploads_def upload_at_fields)
  have st: "photos demo_state = []"
    by (simp add: demo_state_def)
  have new: "map (\<lambda>p. map_option up_id (Some (view_core (view_of p)))) (new_photos three_uploads) =
      [Some 100, Some 100, Some 102]"
    by (simp add: three_uploads_def view_core_view_of upload_view_of_def uploaded_photo_def
        photoData_def upload_at_fields)
  from t have "map (map_option up_id)
      (map (\<lambda>p. Some (view_core (view_of p))) (new_photos three_uploads)) =
      map (map_option up_id) (map uploaded_view (fst (run_uploads demo_env three_uploads demo_state)))"
    by simp
  with new have 4: "map (map_option up_id)
      (map uploaded_view (fst (run_uploads demo_env three_uploads demo_state))) =
      [Some 100, Some 100, Some 102]"
    by (simp add: comp_def)
  from t have g: "get_photos (snd (run_uploads demo_env three_uploads demo_state)) =
      Json 200 (PhotoList (length (photos demo_state) + length three_uploads)
        (map view_of (photos demo_state) @ map view_of (new_photos three_uploads)))"
    by blast
  have 2: "map_option fst
      (listed (get_photos (snd (run_uploads demo_env three_uploads demo_state)))) = Some 3"
    by (simp add: g listed_def len st)
  have "sorted (map (\<lambda>u. now_id (fst u)) three_uploads)"
    by (simp add: ids)
  with t st have "listed_ids (get_photos (snd (run_uploads demo_env three_uploads demo_state)))
      = map (\<lambda>u. now_id (fst u)) three_uploads"
    by blast
  then have 3: "listed_ids (get_photos (snd (run_uploads demo_env three_uploads demo_state)))
      = [100, 100, 102]"
    by (simp only: ids)
  from three_uploads_ok 2 3 4 show ?thesis
    by blast
qed

lemma back_uploads_ok:
  "list_all is_ok (fst (run_uploads demo_env back_uploads demo_state))"
  using demo_dir
  by (rule run_uploads_ok)
    (simp add: back_uploads_def demo_part_image fileSize_limit_def upload_at_fields
      demo_free_any)

text \<open>
  C7 as stated fails when the clock is set back between two uploads: both succeed, one
  after the other, and the list shows their ids in the order of the uploads, 102 before
  100. The id of a record is the reading of the wall clock at its upload, and nothing
  orders these readings.
\<close>

theorem list_clock_back_counterexample:
  "list_all is_ok (fst (run_uploads demo_env back_uploads demo_state)) \<and>
   listed_ids (get_photos (snd (run_uploads demo_env back_uploads demo_state))) = [102, 100] \<and>
   \<not> sorted (listed_ids (get_photos (snd (run_uploads demo_env back_uploads demo_state))))"
proof -
  note p = run_uploads_photos [OF back_uploads_ok]
  have "map (\<lambda>u. now_id (fst u)) back_uploads = [102, 100]"
    by (simp add: back_uploads_def upload_at_fields)
  with p have "listed_ids (get_photos (snd (run_uploads demo_env back_uploads demo_state))) =
      [102, 100]"
    by (simp add: listed_ids_get_photos demo_state_def)
  with back_uploads_ok show ?thesis
    by simp
qed

theorem uploaded_filenames_differ_witness:
  "uploaded_view (fst (post_upload demo_env (upload_at 100 3) (Some demo_part) demo_state)) =
     Some (upload_view_of (uploaded_photo (upload_at 100 3) demo_part)) \<and>
   uploaded_view (fst (post_upload demo_env (upload_at 100 4) (Some demo_part) demo_state)) =
     Some (upload_view_of (uploaded_photo (upload_at 100 4) demo_part)) \<and>
   up_filename (upload_view_of (uploaded_photo (upload_at 100 3) demo_part)) \<noteq>
     up_filename (upload_view_of (uploaded_photo (upload_at 100 4) demo_part))"
proof -
  have 1: "uploaded_view (fst (post_upload demo_env (upload_at 100 3) (Some demo_part) demo_state)) =
     Some (upload_view_of (uploaded_photo (upload_at 100 3) demo_part))"
    using post_upload_ok [OF demo_part_image(1,2) demo_dir demo_free(1) upload_at_fields(5)
        demo_part_fits]
    by (simp add: uploaded_view_def)
  have 2: "uploaded_view (fst (post_upload demo_env (upload_at 100 4) (Some demo_part) demo_state)) =
     Some (upload_view_of (uploaded_photo (upload_at 100 4) demo_part))"
    using post_upload_ok [OF demo_part_image(1,2) demo_dir demo_free(2) upload_at_fields(5)
        demo_part_fits]
    by (simp add: uploaded_view_def)
  from uploaded_filenames_differ [OF 1 2] 1 2 show ?thesis
    by (simp add: upload_at_fields)
qed

text \<open>
  C9 as stated fails: two uploads that read the same clock value and draw the same
  random number both succeed, and their two records share one file name.
\<close>

theorem same_draw_same_filename_counterexample:
  "list_all is_ok (fst (run_uploads demo_env same_draw_uploads demo_state)) \<and>
   map photo_filename (photos (snd (run_uploads demo_env same_draw_uploads demo_state))) =
     [''photo-100-3.jpg'', ''photo-100-3.jpg''] \<and>
   map (map_option up_filename)
       (map uploaded_view (fst (run_uploads demo_env same_draw_uploads demo_state))) =
     [Some ''photo-100-3.jpg'', Some ''photo-100-3.jpg'']"
proof -
  note p = run_uploads_photos [OF same_draw_uploads_ok]
  have new: "map photo_filename (new_photos same_draw_uploads) =
      [''photo-100-3.jpg'', ''photo-100-3.jpg'']"
    by (simp add: same_draw_uploads_def uploaded_photo_def photoData_def upload_at_fields
        gen_filename_small)
  have new': "map (\<lambda>p. map_option up_filename (Some (upload_view_of p))) (new_photos same_draw_uploads) =
      [Some ''photo-100-3.jpg'', Some ''photo-100-3.jpg'']"
    by (simp add: same_draw_uploads_def uploaded_photo_def photoData_def upload_at_fields
        gen_filename_small upload_view_of_def)
  from p new have 2: "map photo_filename
      (photos (snd (run_uploads demo_env same_draw_uploads demo_state))) =
      [''photo-100-3.jpg'', ''photo-100-3.jpg'']"
    by (simp add: demo_state_def)
  from p new' have 3: "map (map_option up_filename)
       (map uploaded_view (fst (run_uploads demo_env same_draw_uploads demo_state))) =
     [Some ''photo-100-3.jpg'', Some ''photo-100-3.jpg'']"
    by (simp add: comp_def)
  from same_draw_uploads_ok 2 3 show ?thesis
    by blast
qed

subsection \<open>The example states are states of runs\<close>

text \<open>
  The states used in the examples above are what uploads leave behind, starting from
  \<open>demo_state\<close>.
\<close>

lemma uploaded_demo_photo: "uploaded_photo (upload_at t rnd) demo_part = demo_photo t rnd"
  by (simp add: uploaded_photo_def photoData_def demo_photo_def upload_at_fields demo_part_def
      fileSize_limit_def)

lemma upload_at_target:
  "upload_target demo_env (upload_at t rnd) = [''srv'', ''backend'', ''uploads'', gen_filename t rnd]"
  by (simp add: upload_target_def upload_at_fields demo_env_def)

lemma gen_filename_twins:
  "gen_filename 7 3 = ''photo-7-3.jpg''" "gen_filename 7 4 = ''photo-7-4.jpg''"
  by (simp_all add: gen_filename_def show_int_def show_nat.simps digit_char_def)

lemma twin_state_reached:
  "snd (run_uploads demo_env
          [(upload_at 7 3, Some demo_part), (upload_at 7 4, Some demo_part)] demo_state) =
     twin_state"
proof -
  let ?st1 = "demo_state
      \<lparr>fs := (fs demo_state)(upload_target demo_env (upload_at 7 3) \<mapsto> File (content demo_part)),
       photos := photos demo_state @ [uploaded_photo (upload_at 7 3) demo_part]\<rparr>"
  have 1: "post_upload demo_env (upload_at 7 3) (Some demo_part) demo_state =
      (Json 200 (Uploaded ''Photo uploaded successfully''
         (upload_view_of (uploaded_photo (upload_at 7 3) demo_part))), ?st1)"
    by (rule post_upload_ok)
      (simp_all add: demo_part_image demo_dir upload_at_fields upload_at_target
        gen_filename_twins fileSize_limit_def,
       simp add: demo_state_def demo_fs_def)
  have 2: "post_upload demo_env (upload_at 7 4) (Some demo_part) ?st1 =
      (Json 200 (Uploaded ''Photo uploaded successfully''
         (upload_view_of (uploaded_photo (upload_at 7 4) demo_part))),
       ?st1\<lparr>fs := (fs ?st1)(upload_target demo_env (upload_at 7 4) \<mapsto> File (content demo_part)),
            photos := photos ?st1 @ [uploaded_photo (upload_at 7 4) demo_part]\<rparr>)"
    by (rule post_upload_ok)
      (simp_all add: demo_part_image upload_at_fields upload_at_target
        gen_filename_twins fileSize_limit_def,
       simp_all add: demo_state_def demo_fs_def demo_env_def)
  show ?thesis
    by (simp add: 1 2 del: fun_upd_apply)
      (simp add: twin_state_def demo_state_def uploaded_demo_photo upload_at_target
        gen_filename_twins demo_part_image)
qed

lemma one_photo_state_reached:
  "snd (post_upload demo_env (upload_at 5 7) (Some demo_part) demo_state) = one_photo_state"
proof -
  have "post_upload demo_env (upload_at 5 7) (Some demo_part) demo_state =
      (Json 200 (Uploaded ''Photo uploaded successfully''
         (upload_view_of (uploaded_photo (upload_at 5 7) demo_part))),
       demo_state
         \<lparr>fs := (fs demo_state)(upload_target demo_env (upload_at 5 7) \<mapsto> File (content demo_part)),
          photos := photos demo_state @ [uploaded_photo (upload_at 5 7) demo_part]\<rparr>)"
    by (rule post_upload_ok)
      (simp_all add: demo_part_image demo_dir upload_at_fields upload_at_target
        gen_filename_5_7 fileSize_limit_def,
       simp add: demo_state_def demo_fs_def)
  then show ?thesis
    by (simp add: one_photo_state_def demo_state_def uploaded_demo_photo upload_at_target
        gen_filename_5_7 demo_part_image)
qed

subsection \<open>Delete and the reading of the parameter\<close>

lemma parseInt_reading: "parseInt s = id_reading s"
proof (cases "dropWhile is_space s")
  case Nil
  then show ?thesis
    by (simp add: parseInt_def id_reading_def with_sign_def hex_marked_def unsigned_part_def
        negative_def hex_prefix_def decimal_prefix_def startsWith_def
        del: dropWhile_eq_Nil_conv)
next
  case (Cons c cs)
  then show ?thesis
    by (simp add: parseInt_def id_reading_def with_sign_def hex_marked_def unsigned_part_def
        negative_def hex_prefix_def decimal_prefix_def Let_def)
qed

lemma delete_by_reading:
  "(case id_reading s of
       None \<Rightarrow>
         delete_photo env failure s st = (Json 404 (Message False ''Photo not found''), st)
     | Some n \<Rightarrow>
         (case findIndex (\<lambda>p. photo_id p = n) (photos st) of
            None \<Rightarrow>
              delete_photo env failure s st =
                (Json 404 (Message False ''Photo not found''), st)
          | Some i \<Rightarrow>
              fst (delete_photo env failure s st) =
                Json 200 (Message True ''Photo deleted successfully'') \<and>
              photos (snd (delete_photo env failure s st)) = splice1 i (photos st)))"
proof (cases "id_reading s")
  case None
  then have "findIndex (\<lambda>p. Some (photo_id p) = parseInt s) (photos st) = None"
    by (simp add: parseInt_reading findIndex_None)
  from delete_not_found [OF this] None show ?thesis
    by simp
next
  case (Some n)
  show ?thesis
  proof (cases "findIndex (\<lambda>p. photo_id p = n) (photos st)")
    case None
    with Some have "findIndex (\<lambda>p. Some (photo_id p) = parseInt s) (photos st) = None"
      by (simp add: parseInt_reading)
    from delete_not_found [OF this] Some None show ?thesis
      by simp
  next
    case i: (Some i)
    with Some have "findIndex (\<lambda>p. Some (photo_id p) = parseInt s) (photos st) = Some i"
      by (simp add: parseInt_reading)
    from delete_found [OF this] Some i show ?thesis
      by simp
  qed
qed

text \<open>
  C10, as amended. \<^verbatim>\<open>parseInt\<close> reads the path parameter so: after leading white
  space and one sign, a string that begins with \<^verbatim>\<open>0x\<close> or \<^verbatim>\<open>0X\<close> stands for the
  hexadecimal number made of the hexadecimal digits that follow, and any other string for
  its leading run of decimal digits; the sign is applied. If there is no such run, or no
  record has the number as id, the delete answers not-found and the state is the one
  before; otherwise it answers success and removes the first record with that id.
\<close>

theorem delete_parses_prefix:
  "parseInt s = id_reading s \<and>
    (case id_reading s of
       None \<Rightarrow>
         delete_photo env failure s st = (Json 404 (Message False ''Photo not found''), st)
     | Some n \<Rightarrow>
         (case findIndex (\<lambda>p. photo_id p = n) (photos st) of
            None \<Rightarrow>
              delete_photo env failure s st =
                (Json 404 (Message False ''Photo not found''), st)
          | Some i \<Rightarrow>
              fst (delete_photo env failure s st) =
                Json 200 (Message True ''Photo deleted successfully'') \<and>
              photos (snd (delete_photo env failure s st)) = splice1 i (photos st)))"
  using parseInt_reading [of s]
    delete_by_reading [where s = s and env = env and failure = failure and st = st]
  by simp

lemma readings:
  "id_reading ''5abc'' = Some 5" "id_reading ''abc'' = None"
  "id_reading [CHR 0xA0, CHR ''5''] = Some 5" "id_reading ''0x5'' = Some 5"
  "id_reading ''-5'' = Some (- 5)"
  by (simp_all add: id_reading_def with_sign_def hex_marked_def unsigned_part_def negative_def
      hex_prefix_def decimal_prefix_def startsWith_def is_space_def digit_of_def
      digit_table_def number_of_def)

theorem delete_parses_prefix_witness:
  "parseInt ''5abc'' = Some 5 \<and>
   fst (delete_photo demo_env None ''5abc'' one_photo_state) =
     Json 200 (Message True ''Photo deleted successfully'') \<and>
   photos (snd (delete_photo demo_env None ''5abc'' one_photo_state)) = [] \<and>
   parseInt ''abc'' = None \<and>
   delete_photo demo_env None ''abc'' one_photo_state =
     (Json 404 (Message False ''Photo not found''), one_photo_state) \<and>
   parseInt [CHR 0xA0, CHR ''5''] = Some 5 \<and>
   photos (snd (delete_photo demo_env None [CHR 0xA0, CHR ''5''] one_photo_state)) = [] \<and>
   parseInt ''-5'' = Some (- 5) \<and>
   delete_photo demo_env None ''-5'' one_photo_state =
     (Json 404 (Message False ''Photo not found''), one_photo_state)"
proof -
  have f: "findIndex (\<lambda>p. photo_id p = 5) (photos one_photo_state) = Some 0"
      "findIndex (\<lambda>p. photo_id p = - 5) (photos one_photo_state) = None"
      "splice1 0 (photos one_photo_state) = []"
    by (simp_all add: one_photo_state_def demo_photo_def splice1_def)
  from delete_parses_prefix [where s = "''5abc''" and env = demo_env and failure = None
      and st = one_photo_state]
    delete_parses_prefix [where s = "''abc''" and env = demo_env and failure = None
      and st = one_photo_state]
    delete_parses_prefix [where s = "[CHR 0xA0, CHR ''5'']" and env = demo_env and failure = None
      and st = one_photo_state]
    delete_parses_prefix [where s = "''-5''" and env = demo_env and failure = None
      and st = one_photo_state]
  show ?thesis
    by (simp add: readings f)
qed

lemma uploaded_state_photos:
  "photos uploaded_state = [uploaded_photo demo_upload_env demo_part]"
  "photo_id (uploaded_photo demo_upload_env demo_part) = 1700000000001"
  by (simp_all add: uploaded_state_def demo_upload)
    (simp_all add: demo_state_def uploaded_photo_def photoData_def demo_upload_env_def)

lemma uploaded_state_readings:
  "id_reading ''0x18bcfe56801'' = Some 1700000000001"
  "id_reading '' 1700000000001'' = Some 1700000000001"
  "id_reading ''+1700000000001'' = Some 1700000000001"
  by (simp_all add: id_reading_def with_sign_def hex_marked_def unsigned_part_def negative_def
      hex_prefix_def decimal_prefix_def startsWith_def is_space_def digit_of_def
      digit_table_def number_of_def)

text \<open>
  C10 as stated fails, with the decimal integer prefix of a string read as its leading
  run of decimal digits. The state is the one after the upload of \<open>demo_part\<close>, whose
  record has the id 1700000000001. The leading decimal digits of \<^verbatim>\<open>0x18bcfe56801\<close>
  are the number 0, which is the id of no record; \<^verbatim>\<open>parseInt\<close> reads the string as a
  hexadecimal number, and the delete removes the record. The same id after a space, and
  after a plus sign, begins with no decimal digit, and the delete removes the record.
\<close>

theorem delete_hex_counterexample:
  "photos uploaded_state \<noteq> [] \<and>
   decimal_prefix ''0x18bcfe56801'' = Some 0 \<and>
   findIndex (\<lambda>p. photo_id p = 0) (photos uploaded_state) = None \<and>
   fst (delete_photo demo_env None ''0x18bcfe56801'' uploaded_state) =
     Json 200 (Message True ''Photo deleted successfully'') \<and>
   photos (snd (delete_photo demo_env None ''0x18bcfe56801'' uploaded_state)) = [] \<and>
   decimal_prefix '' 1700000000001'' = None \<and>
   photos (snd (delete_photo demo_env None '' 1700000000001'' uploaded_state)) = [] \<and>
   decimal_prefix ''+1700000000001'' = None \<and>
   photos (snd (delete_photo demo_env None ''+1700000000001'' uploaded_state)) = []"
proof -
  have d: "decimal_prefix ''0x18bcfe56801'' = Some 0"
      "decimal_prefix '' 1700000000001'' = None"
      "decimal_prefix ''+1700000000001'' = None"
    by (simp_all add: decimal_prefix_def digit_of_def digit_table_def number_of_def)
  have f: "findIndex (\<lambda>p. photo_id p = 0) (photos uploaded_state) = None"
      "findIndex (\<lambda>p. photo_id p = 1700000000001) (photos uploaded_state) = Some 0"
      "splice1 0 (photos uploaded_state) = []" "photos uploaded_state \<noteq> []"
    by (simp_all add: uploaded_state_photos splice1_def)
  from delete_by_reading [where s = "''0x18bcfe56801''" and env = demo_env and failure = None
      and st = uploaded_state]
    delete_by_reading [where s = "'' 1700000000001''" and env = demo_env and failure = None
      and st = uploaded_state]
    delete_by_reading [where s = "''+1700000000001''" and env = demo_env and failure = None
      and st = uploaded_state]
  show ?thesis
    by (simp add: uploaded_state_readings f d)
qed

end
